theory Spec2Isabelle
  imports Main "HOL-Library.Word"
begin

section \<open>The built-in type \<open>double\<close>\<close>

text \<open>
  \<open>vec3.hpp\<close> and \<open>ray.hpp\<close> compute with the built-in \<open>double\<close> of C++. It is modelled
  as IEEE 754 binary64 with round-to-nearest, ties-to-even, every operation rounded on its
  own (no fused multiply-add), one NaN (payloads are not distinguished), two infinities and
  two zeros.

  Every finite binary64 value is an integer multiple of \<open>2\<^sup>-\<^sup>1\<^sup>0\<^sup>7\<^sup>4\<close>, the smallest
  subnormal. \<open>Finite s n\<close> is the value \<open>(-1)\<^sup>s \<cdot> n \<cdot> 2\<^sup>-\<^sup>1\<^sup>0\<^sup>7\<^sup>4\<close>; the sign \<open>s\<close> is
  \<open>True\<close> for negative values, so \<open>Finite True 0\<close> is \<open>-0.0\<close>.
\<close>

datatype double = NaN | Infinite bool | Finite bool nat

fun bit_length :: "nat \<Rightarrow> nat" where
  "bit_length n = (if n = 0 then 0 else Suc (bit_length (n div 2)))"

declare bit_length.simps [simp del]

definition max_finite :: nat where
  \<comment> \<open>\<open>DBL_MAX = (2\<^sup>5\<^sup>3 - 1) \<cdot> 2\<^sup>9\<^sup>7\<^sup>1\<close> in units of \<open>2\<^sup>-\<^sup>1\<^sup>0\<^sup>7\<^sup>4\<close>\<close>
  "max_finite = (2 ^ 53 - 1) * 2 ^ 2045"

definition one_units :: nat where
  \<comment> \<open>the value 1.0 in units of \<open>2\<^sup>-\<^sup>1\<^sup>0\<^sup>7\<^sup>4\<close>\<close>
  "one_units = 2 ^ 1074"

definition quantum :: "nat \<Rightarrow> nat" where
  \<comment> \<open>the exponent of the spacing of binary64 values around \<open>n\<close>: 53 significant bits,
      and spacing 1 for the subnormals and the first binade\<close>
  "quantum n = bit_length n - 53"

definition representable :: "nat \<Rightarrow> bool" where
  "representable n \<longleftrightarrow> n \<le> max_finite \<and> n mod 2 ^ quantum n = 0"

fun valid_double :: "double \<Rightarrow> bool" where
  "valid_double NaN = True"
| "valid_double (Infinite s) = True"
| "valid_double (Finite s n) = representable n"

definition round_even :: "nat \<Rightarrow> nat \<Rightarrow> nat" where
  \<comment> \<open>the integer nearest to \<open>p / q\<close>, the even one when two are equally near\<close>
  "round_even p q =
     (let d = p div q; r = p mod q
      in if 2 * r < q then d
         else if q < 2 * r then d + 1
         else if even d then d else d + 1)"

definition round_magnitude :: "nat \<Rightarrow> nat \<Rightarrow> nat" where
  \<comment> \<open>\<open>p / q\<close> rounded to 53 significant bits, exponent not yet bounded\<close>
  "round_magnitude p q = (let k = quantum (p div q) in round_even p (q * 2 ^ k) * 2 ^ k)"

definition round_double :: "bool \<Rightarrow> nat \<Rightarrow> nat \<Rightarrow> double" where
  \<comment> \<open>the binary64 nearest to \<open>(-1)\<^sup>s \<cdot> p / q\<close>; beyond the range the result is infinite\<close>
  "round_double s p q =
     (let n = round_magnitude p q in if max_finite < n then Infinite s else Finite s n)"

definition round_int :: "int \<Rightarrow> double" where
  "round_int z = round_double (z < 0) (nat \<bar>z\<bar>) 1"

definition signed_magnitude :: "bool \<Rightarrow> nat \<Rightarrow> int" where
  "signed_magnitude s n = (if s then - int n else int n)"

fun isqrt :: "nat \<Rightarrow> nat" where
  \<comment> \<open>the integer part of the square root\<close>
  "isqrt n =
     (if n < 2 then n
      else let r = 2 * isqrt (n div 4) in if (r + 1) * (r + 1) \<le> n then r + 1 else r)"

declare isqrt.simps [simp del]

fun dneg :: "double \<Rightarrow> double" where
  \<comment> \<open>unary \<open>-\<close>\<close>
  "dneg NaN = NaN"
| "dneg (Infinite s) = Infinite (\<not> s)"
| "dneg (Finite s n) = Finite (\<not> s) n"

fun dadd :: "double \<Rightarrow> double \<Rightarrow> double" where
  \<comment> \<open>binary \<open>+\<close>; an exact zero sum is \<open>+0\<close> unless both operands are \<open>-0\<close>\<close>
  "dadd NaN b = NaN"
| "dadd a NaN = NaN"
| "dadd (Infinite s) (Infinite t) = (if s = t then Infinite s else NaN)"
| "dadd (Infinite s) (Finite t n) = Infinite s"
| "dadd (Finite s m) (Infinite t) = Infinite t"
| "dadd (Finite s m) (Finite t n) =
     (let z = signed_magnitude s m + signed_magnitude t n
      in if z = 0 then Finite (s \<and> t) 0 else round_int z)"

definition dsub :: "double \<Rightarrow> double \<Rightarrow> double" where
  \<comment> \<open>binary \<open>-\<close>\<close>
  "dsub a b = dadd a (dneg b)"

fun dmul :: "double \<Rightarrow> double \<Rightarrow> double" where
  \<comment> \<open>binary \<open>*\<close>\<close>
  "dmul NaN b = NaN"
| "dmul a NaN = NaN"
| "dmul (Infinite s) (Infinite t) = Infinite (s \<noteq> t)"
| "dmul (Infinite s) (Finite t n) = (if n = 0 then NaN else Infinite (s \<noteq> t))"
| "dmul (Finite s m) (Infinite t) = (if m = 0 then NaN else Infinite (s \<noteq> t))"
| "dmul (Finite s m) (Finite t n) = round_double (s \<noteq> t) (m * n) one_units"

fun ddiv :: "double \<Rightarrow> double \<Rightarrow> double" where
  \<comment> \<open>binary \<open>/\<close>; a zero divisor is not an error\<close>
  "ddiv NaN b = NaN"
| "ddiv a NaN = NaN"
| "ddiv (Infinite s) (Infinite t) = NaN"
| "ddiv (Infinite s) (Finite t n) = Infinite (s \<noteq> t)"
| "ddiv (Finite s m) (Infinite t) = Finite (s \<noteq> t) 0"
| "ddiv (Finite s m) (Finite t n) =
     (if n = 0 then (if m = 0 then NaN else Infinite (s \<noteq> t))
      else round_double (s \<noteq> t) (m * one_units) n)"

fun dsqrt :: "double \<Rightarrow> double" where
  \<comment> \<open>\<open>sqrt\<close> of \<open><cmath>\<close>, correctly rounded. With \<open>r = \<lfloor>2 \<cdot> \<surd>a\<rfloor>\<close> the root is \<open>r / 2\<close>
      when that is exact and lies strictly between \<open>r / 2\<close> and \<open>(r + 1) / 2\<close> otherwise,
      where \<open>(2 \<cdot> r + 1) / 4\<close> rounds as the root does.\<close>
  "dsqrt NaN = NaN"
| "dsqrt (Infinite s) = (if s then NaN else Infinite False)"
| "dsqrt (Finite s n) =
     (if n = 0 then Finite s 0
      else if s then NaN
      else let a = 4 * (n * one_units); r = isqrt a
           in round_double False (if r * r = a then 2 * r else 2 * r + 1) 4)"

fun deq :: "double \<Rightarrow> double \<Rightarrow> bool" where
  \<comment> \<open>the comparison \<open>==\<close>: false on NaN, true on zeros of either sign\<close>
  "deq (Finite s m) (Finite t n) = (m = n \<and> (s = t \<or> m = 0))"
| "deq (Infinite s) (Infinite t) = (s = t)"
| "deq a b = False"

definition double_of_int :: "int \<Rightarrow> double" where
  \<comment> \<open>the conversion of an integer operand, as of the literal in \<open>1 / t\<close>\<close>
  "double_of_int i = round_double (i < 0) (nat \<bar>i\<bar> * one_units) 1"

fun is_nan :: "double \<Rightarrow> bool" where
  "is_nan NaN = True"
| "is_nan a = False"

fun is_infinite :: "double \<Rightarrow> bool" where
  "is_infinite (Infinite s) = True"
| "is_infinite a = False"

fun is_finite :: "double \<Rightarrow> bool" where
  "is_finite (Finite s n) = True"
| "is_finite a = False"

fun is_zero :: "double \<Rightarrow> bool" where
  "is_zero (Finite s n) = (n = 0)"
| "is_zero a = False"

definition double_of_bits :: "64 word \<Rightarrow> double" where
  \<comment> \<open>the value of a binary64 bit pattern: sign, 11 bits of exponent, 52 of fraction\<close>
  "double_of_bits w =
     (let s = bit w 63;
          ex = unat (and (drop_bit 52 w) 0x7FF);
          fr = unat (and w 0xFFFFFFFFFFFFF)
      in if ex = 2047 then (if fr = 0 then Infinite s else NaN)
         else Finite s (if ex = 0 then fr else (2 ^ 52 + fr) * 2 ^ (ex - 1)))"

section \<open>\<open>vec3.hpp\<close>\<close>

text \<open>
  The class \<open>vec3\<close> has one member, \<open>std::array<double, 3> e\<close>. A value of the class is the
  three elements of that array; no value of the type has more or fewer. The constructor
  \<open>vec3(x, y, z)\<close> is \<open>Vec3 x y z\<close>.
\<close>

datatype vec3 = Vec3 (e0: double) (e1: double) (e2: double)

definition vec3_default :: vec3 where
  \<comment> \<open>\<open>vec3()\<close>\<close>
  "vec3_default = Vec3 (Finite False 0) (Finite False 0) (Finite False 0)"

datatype error = invalid_argument string | outside_storage

text \<open>
  \<open>e[k]\<close> is the unchecked element access of \<open>std::array\<close>. Outside the three elements the
  language leaves it undefined; the model makes that a result of its own, \<open>outside_storage\<close>,
  so that reaching it can be stated.
\<close>

definition array_read :: "vec3 \<Rightarrow> nat \<Rightarrow> error + double" where
  "array_read v k =
     (if k = 0 then Inr (e0 v) else if k = 1 then Inr (e1 v) else if k = 2 then Inr (e2 v)
      else Inl outside_storage)"

definition array_write :: "vec3 \<Rightarrow> nat \<Rightarrow> double \<Rightarrow> error + vec3" where
  "array_write v k t =
     (if k = 0 then Inr (Vec3 t (e1 v) (e2 v))
      else if k = 1 then Inr (Vec3 (e0 v) t (e2 v))
      else if k = 2 then Inr (Vec3 (e0 v) (e1 v) t)
      else Inl outside_storage)"

definition vec3_x :: "vec3 \<Rightarrow> double" where
  "vec3_x v = e0 v"

definition vec3_y :: "vec3 \<Rightarrow> double" where
  "vec3_y v = e1 v"

definition vec3_z :: "vec3 \<Rightarrow> double" where
  "vec3_z v = e2 v"

definition vec3_newX :: "vec3 \<Rightarrow> double \<Rightarrow> vec3" where
  "vec3_newX v x = Vec3 x (e1 v) (e2 v)"

definition vec3_newY :: "vec3 \<Rightarrow> double \<Rightarrow> vec3" where
  "vec3_newY v y = Vec3 (e0 v) y (e2 v)"

definition vec3_newZ :: "vec3 \<Rightarrow> double \<Rightarrow> vec3" where
  "vec3_newZ v z = Vec3 (e0 v) (e1 v) z"

definition vec3_neg :: "vec3 \<Rightarrow> vec3" where
  \<comment> \<open>\<open>operator-() const\<close>\<close>
  "vec3_neg v = Vec3 (dneg (e0 v)) (dneg (e1 v)) (dneg (e2 v))"

text \<open>
  The two \<open>operator[]\<close> take an \<open>unsigned int\<close>. The \<open>const\<close> one returns the element; the
  other returns a reference to it, through which the caller reads (\<open>vec3_index_mut_read\<close>)
  or assigns (\<open>vec3_index_mut_write\<close>, the statement \<open>v[i] = t\<close>, which returns the receiver
  after the assignment).
\<close>

definition vec3_index :: "vec3 \<Rightarrow> 32 word \<Rightarrow> error + double" where
  "vec3_index v i =
     (if 2 < i
      then Inl (invalid_argument ''Index out of bounds: vector index must be 0, 1, or 2!'')
      else array_read v (unat i))"

definition vec3_index_mut_read :: "vec3 \<Rightarrow> 32 word \<Rightarrow> error + double" where
  "vec3_index_mut_read v i =
     (if 2 < i
      then Inl (invalid_argument ''Indexing out of bounds: vector index must be 0, 1, or 2!'')
      else array_read v (unat i))"

definition vec3_index_mut_write :: "vec3 \<Rightarrow> 32 word \<Rightarrow> double \<Rightarrow> error + vec3" where
  "vec3_index_mut_write v i t =
     (if 2 < i
      then Inl (invalid_argument ''Indexing out of bounds: vector index must be 0, 1, or 2!'')
      else array_write v (unat i) t)"

text \<open>
  The compound assignments change the receiver and return a reference to it: the model
  returns the pair of the value returned and the receiver afterwards.
\<close>

definition vec3_plus_assign :: "vec3 \<Rightarrow> vec3 \<Rightarrow> vec3 \<times> vec3" where
  \<comment> \<open>\<open>operator+=\<close>\<close>
  "vec3_plus_assign this v =
     (let this1 = Vec3 (dadd (e0 this) (vec3_x v)) (e1 this) (e2 this);
          this2 = Vec3 (e0 this1) (dadd (e1 this1) (vec3_y v)) (e2 this1);
          this3 = Vec3 (e0 this2) (e1 this2) (dadd (e2 this2) (vec3_z v))
      in (this3, this3))"

definition vec3_times_assign :: "vec3 \<Rightarrow> double \<Rightarrow> vec3 \<times> vec3" where
  \<comment> \<open>\<open>operator*=\<close>\<close>
  "vec3_times_assign this t =
     (let this1 = Vec3 (dmul (e0 this) t) (e1 this) (e2 this);
          this2 = Vec3 (e0 this1) (dmul (e1 this1) t) (e2 this1);
          this3 = Vec3 (e0 this2) (e1 this2) (dmul (e2 this2) t)
      in (this3, this3))"

definition vec3_div_assign :: "vec3 \<Rightarrow> double \<Rightarrow> vec3 \<times> vec3" where
  \<comment> \<open>\<open>operator/=\<close>: \<open>return *this *= 1 / t;\<close>\<close>
  "vec3_div_assign this t = vec3_times_assign this (ddiv (double_of_int 1) t)"

definition vec3_plus :: "vec3 \<Rightarrow> vec3 \<Rightarrow> vec3" where
  \<comment> \<open>\<open>operator+\<close>\<close>
  "vec3_plus this v =
     Vec3 (dadd (vec3_x this) (vec3_x v)) (dadd (vec3_y this) (vec3_y v))
       (dadd (vec3_z this) (vec3_z v))"

definition vec3_minus :: "vec3 \<Rightarrow> vec3 \<Rightarrow> vec3" where
  \<comment> \<open>binary \<open>operator-\<close>\<close>
  "vec3_minus this v =
     Vec3 (dsub (vec3_x this) (vec3_x v)) (dsub (vec3_y this) (vec3_y v))
       (dsub (vec3_z this) (vec3_z v))"

definition vec3_times :: "vec3 \<Rightarrow> vec3 \<Rightarrow> vec3" where
  \<comment> \<open>\<open>operator*(const vec3 &)\<close>, elementwise\<close>
  "vec3_times this v =
     Vec3 (dmul (vec3_x this) (vec3_x v)) (dmul (vec3_y this) (vec3_y v))
       (dmul (vec3_z this) (vec3_z v))"

definition vec3_div :: "vec3 \<Rightarrow> double \<Rightarrow> vec3" where
  \<comment> \<open>\<open>operator/(double)\<close>\<close>
  "vec3_div this t = Vec3 (ddiv (vec3_x this) t) (ddiv (vec3_y this) t) (ddiv (vec3_z this) t)"

definition vec3_dot :: "vec3 \<Rightarrow> vec3 \<Rightarrow> double" where
  "vec3_dot this v =
     dadd (dadd (dmul (vec3_x this) (vec3_x v)) (dmul (vec3_y this) (vec3_y v)))
       (dmul (vec3_z this) (vec3_z v))"

definition vec3_cross :: "vec3 \<Rightarrow> vec3 \<Rightarrow> vec3" where
  "vec3_cross this v =
     Vec3 (dsub (dmul (vec3_y this) (vec3_z v)) (dmul (vec3_z this) (vec3_y v)))
       (dsub (dmul (vec3_z this) (vec3_x v)) (dmul (vec3_x this) (vec3_z v)))
       (dsub (dmul (vec3_x this) (vec3_y v)) (dmul (vec3_y this) (vec3_x v)))"

definition vec3_length_squared :: "vec3 \<Rightarrow> double" where
  "vec3_length_squared this =
     dadd (dadd (dmul (vec3_x this) (vec3_x this)) (dmul (vec3_y this) (vec3_y this)))
       (dmul (vec3_z this) (vec3_z this))"

definition vec3_length :: "vec3 \<Rightarrow> double" where
  "vec3_length this = dsqrt (vec3_length_squared this)"

definition vec3_unit_vector :: "vec3 \<Rightarrow> vec3" where
  "vec3_unit_vector this = vec3_div this (vec3_length this)"

definition scalar_times_vec3 :: "double \<Rightarrow> vec3 \<Rightarrow> vec3" where
  \<comment> \<open>\<open>operator*(const double t, const vec3 &v)\<close>\<close>
  "scalar_times_vec3 t v = Vec3 (dmul t (vec3_x v)) (dmul t (vec3_y v)) (dmul t (vec3_z v))"

definition vec3_times_scalar :: "vec3 \<Rightarrow> double \<Rightarrow> vec3" where
  \<comment> \<open>\<open>operator*(const vec3 &v, const double t)\<close>: \<open>return t * v;\<close>\<close>
  "vec3_times_scalar v t = scalar_times_vec3 t v"

definition vec3_all :: "(double \<Rightarrow> bool) \<Rightarrow> vec3 \<Rightarrow> bool" where
  \<comment> \<open>a property of each of the three components\<close>
  "vec3_all P v \<longleftrightarrow> P (e0 v) \<and> P (e1 v) \<and> P (e2 v)"

definition valid_vec3 :: "vec3 \<Rightarrow> bool" where
  "valid_vec3 v \<longleftrightarrow> vec3_all valid_double v"

definition vec3_deq :: "vec3 \<Rightarrow> vec3 \<Rightarrow> bool" where
  \<comment> \<open>the three components compared with \<open>==\<close>\<close>
  "vec3_deq v w \<longleftrightarrow>
     deq (vec3_x v) (vec3_x w) \<and> deq (vec3_y v) (vec3_y w) \<and> deq (vec3_z v) (vec3_z w)"

section \<open>\<open>ray.hpp\<close>\<close>

record ray =
  start :: vec3
  direction :: vec3

definition ray_default :: ray where
  \<comment> \<open>\<open>ray() {}\<close>: both members are default-constructed\<close>
  "ray_default = \<lparr>start = vec3_default, direction = vec3_default\<rparr>"

definition ray_new :: "vec3 \<Rightarrow> vec3 \<Rightarrow> ray" where
  \<comment> \<open>\<open>ray(const point3 &_start, const vec3 &_dir)\<close>\<close>
  "ray_new start' dir' = \<lparr>start = start', direction = dir'\<rparr>"

definition ray_origin :: "ray \<Rightarrow> vec3" where
  "ray_origin r = start r"

definition ray_dir :: "ray \<Rightarrow> vec3" where
  "ray_dir r = direction r"

definition ray_at :: "ray \<Rightarrow> double \<Rightarrow> vec3" where
  \<comment> \<open>\<open>return start + (t * direction);\<close>\<close>
  "ray_at r t = vec3_plus (start r) (scalar_times_vec3 t (direction r))"

section \<open>Facts of binary64 arithmetic\<close>

lemma bit_length_power: "bit_length (2 ^ k) = Suc k"
proof (induction k)
  case 0
  show ?case by (simp add: bit_length.simps)
next
  case (Suc k)
  have "bit_length (2 ^ Suc k) = Suc (bit_length (2 ^ Suc k div 2))"
    by (subst bit_length.simps) simp
  with Suc show ?case by simp
qed

lemma one_units_positive: "0 < one_units"
  by (simp add: one_units_def)

lemma round_even_exact: "0 < q \<Longrightarrow> round_even (c * q) q = c"
  by (simp add: round_even_def)

lemma round_magnitude_exact:
  assumes "n mod 2 ^ quantum n = 0" and "0 < q"
  shows "round_magnitude (n * q) q = n"
proof -
  define k where "k = quantum n"
  from assms(1) have "2 ^ k dvd n" by (simp add: k_def mod_eq_0_iff_dvd)
  then obtain c where c: "n = c * 2 ^ k" by (auto simp add: dvd_def mult.commute)
  have "n * q = c * (q * 2 ^ k)" by (simp add: c)
  moreover have "round_even (c * (q * 2 ^ k)) (q * 2 ^ k) = c"
    using assms(2) by (intro round_even_exact) simp
  ultimately have "round_even (n * q) (q * 2 ^ k) = c" by (simp only:)
  then have "round_even (n * q) (q * 2 ^ k) * 2 ^ k = n" by (simp only: c [symmetric])
  with assms(2) show ?thesis by (simp add: round_magnitude_def k_def)
qed

lemma round_double_exact:
  "representable n \<Longrightarrow> 0 < q \<Longrightarrow> round_double s (n * q) q = Finite s n"
  by (simp add: round_double_def round_magnitude_exact representable_def)

lemma round_double_zero: "0 < q \<Longrightarrow> round_double s 0 q = Finite s 0"
  by (simp add: round_double_def round_magnitude_def round_even_def quantum_def
      bit_length.simps)

lemma representable_one: "representable one_units"
proof -
  have "(2::nat) ^ 1074 \<le> 1 * 2 ^ 2045" by (simp add: power_increasing)
  also have "\<dots> \<le> (2 ^ 53 - 1) * 2 ^ 2045" by (intro mult_le_mono1) simp
  finally have "one_units \<le> max_finite" by (simp add: one_units_def max_finite_def)
  moreover have "quantum one_units = 1022"
    by (simp only: quantum_def one_units_def bit_length_power)
  moreover have "(2::nat) ^ 1074 mod 2 ^ 1022 = 0"
    by (simp add: mod_eq_0_iff_dvd le_imp_power_dvd)
  ultimately show ?thesis by (simp add: representable_def one_units_def)
qed

lemma double_of_int_1: "double_of_int 1 = Finite False one_units"
  using round_double_exact [OF representable_one, of 1 False] by (simp add: double_of_int_def)

lemma double_of_int_0: "double_of_int 0 = Finite False 0"
  by (simp add: double_of_int_def round_double_zero)

lemma dneg_round_double: "dneg (round_double s p q) = round_double (\<not> s) p q"
  by (simp add: round_double_def Let_def)

lemma round_double_not_nan: "\<not> is_nan (round_double s p q)"
  by (simp add: round_double_def Let_def)

lemma sign_product_commute: "(s \<noteq> t) = (t \<noteq> s)" for s t :: bool
  by auto

lemma dmul_commute: "dmul a b = dmul b a"
proof (cases a; cases b)
  fix s m t n
  assume "a = Finite s m" and "b = Finite t n"
  then show ?thesis
    using sign_product_commute [of s t] by (simp add: mult.commute)
qed (use sign_product_commute in auto)

lemma dmul_one_left: "valid_double a \<Longrightarrow> dmul (double_of_int 1) a = a"
proof (cases a)
  case (Finite s n)
  assume "valid_double a"
  with Finite have "representable n" by simp
  from round_double_exact [OF this one_units_positive, of s] Finite show ?thesis
    by (simp add: double_of_int_1 mult.commute)
qed (use one_units_positive in \<open>simp_all add: double_of_int_1\<close>)

lemma dmul_zero_finite:
  "is_zero a \<Longrightarrow> is_finite b \<Longrightarrow> is_zero (dmul a b)"
  by (cases a; cases b) (simp_all add: round_double_zero one_units_positive)

lemma signed_magnitude_neg: "signed_magnitude (\<not> s) n = - signed_magnitude s n"
  by (simp add: signed_magnitude_def)

lemma signed_magnitude_zero: "signed_magnitude s n = 0 \<longleftrightarrow> n = 0"
  by (simp add: signed_magnitude_def)

lemma round_int_signed_magnitude:
  assumes "representable n" and "n \<noteq> 0"
  shows "round_int (signed_magnitude s n) = Finite s n"
  using round_double_exact [OF assms(1), of 1 s] assms(2)
  by (cases s) (simp_all add: round_int_def signed_magnitude_def)

lemma round_int_neg:
  assumes "z \<noteq> 0"
  shows "dneg (round_int (- z)) = round_int z"
proof -
  from assms have "(\<not> - z < 0) = (z < 0)" by arith
  then show ?thesis by (simp add: round_int_def dneg_round_double)
qed

lemma dadd_finite:
  "dadd (Finite s m) (Finite t n) =
     (if signed_magnitude s m + signed_magnitude t n = 0 then Finite (s \<and> t) 0
      else round_int (signed_magnitude s m + signed_magnitude t n))"
  by (simp add: Let_def)

lemma dadd_zero_right:
  assumes "valid_double a" and "is_zero b"
  shows "dadd a b = a \<or> (is_zero a \<and> is_zero (dadd a b))"
proof (cases a)
  case (Finite s n)
  from assms(2) obtain t where b: "b = Finite t 0" by (cases b) simp_all
  have sum: "signed_magnitude s n + signed_magnitude t 0 = signed_magnitude s n"
    by (simp add: signed_magnitude_def)
  show ?thesis
  proof (cases "n = 0")
    case True
    with Finite b show ?thesis by (simp add: signed_magnitude_def)
  next
    case False
    from assms(1) Finite have "representable n" by simp
    from round_int_signed_magnitude [OF this False, of s] False Finite b show ?thesis
      by (simp only: dadd_finite sum signed_magnitude_zero) simp
  qed
next
  case NaN
  with assms(2) show ?thesis by (cases b) simp_all
next
  case (Infinite s)
  with assms(2) show ?thesis by (cases b) simp_all
qed

lemma deq_refl: "\<not> is_nan a \<Longrightarrow> deq a a"
  by (cases a) simp_all

lemma deq_zero: "is_zero a \<Longrightarrow> is_zero b \<Longrightarrow> deq a b"
  by (cases a; cases b) simp_all

lemma dadd_neg_finite: "is_finite a \<Longrightarrow> dadd a (dneg a) = Finite False 0"
  by (cases a) (simp_all add: signed_magnitude_def)

lemma dsub_swap:
  "dsub a b = dneg (dsub b a) \<or> (is_zero (dsub a b) \<and> is_zero (dneg (dsub b a)))"
proof (cases a; cases b)
  fix s m t n
  assume a: "a = Finite s m" and b: "b = Finite t n"
  define d where "d = signed_magnitude s m + signed_magnitude (\<not> t) n"
  have d': "signed_magnitude t n + signed_magnitude (\<not> s) m = - d"
    by (simp add: d_def signed_magnitude_neg)
  have ab: "dsub a b = (if d = 0 then Finite (s \<and> \<not> t) 0 else round_int d)"
    unfolding dsub_def a b dneg.simps dadd_finite d_def ..
  have ba: "dsub b a = (if - d = 0 then Finite (t \<and> \<not> s) 0 else round_int (- d))"
    unfolding dsub_def a b dneg.simps dadd_finite d' ..
  show ?thesis
  proof (cases "d = 0")
    case True
    with ab ba show ?thesis by simp
  next
    case False
    with ab ba round_int_neg [OF False] show ?thesis by simp
  qed
qed (auto simp add: dsub_def)

lemma dsub_swap_deq: "\<not> is_nan (dsub a b) \<Longrightarrow> deq (dsub a b) (dneg (dsub b a))"
  using dsub_swap [of a b] deq_refl [of "dsub a b"] deq_zero by auto

lemma ddiv_by_zero: "is_zero b \<Longrightarrow> is_infinite (ddiv a b) \<or> is_nan (ddiv a b)"
  by (cases a; cases b) simp_all

lemma ddiv_one_zero: "is_zero b \<Longrightarrow> is_infinite (ddiv (double_of_int 1) b)"
  by (cases b) (simp_all add: double_of_int_1 one_units_def)

lemma dmul_infinite: "is_infinite b \<Longrightarrow> is_infinite (dmul a b) \<or> is_nan (dmul a b)"
  by (cases a; cases b) simp_all

subsection \<open>Every result is a binary64 value\<close>

lemma bit_length_upper: "n < 2 ^ bit_length n"
proof (induction n rule: bit_length.induct)
  case (1 n)
  show ?case
  proof (cases "n = 0")
    case True
    then show ?thesis by (simp add: bit_length.simps)
  next
    case False
    with 1 have "n div 2 < 2 ^ bit_length (n div 2)" by simp
    then have "n < 2 * 2 ^ bit_length (n div 2)" by arith
    moreover from False have "bit_length n = Suc (bit_length (n div 2))"
      by (subst bit_length.simps) simp
    ultimately show ?thesis by simp
  qed
qed

lemma bit_length_lower: "0 < n \<Longrightarrow> 2 ^ bit_length n \<le> 2 * n"
proof (induction n rule: bit_length.induct)
  case (1 n)
  from 1(2) have step: "bit_length n = Suc (bit_length (n div 2))"
    by (subst bit_length.simps) simp
  show ?case
  proof (cases "n div 2 = 0")
    case True
    with 1(2) have "n = 1" by arith
    then show ?thesis by (simp add: bit_length.simps)
  next
    case False
    with 1 have "2 ^ bit_length (n div 2) \<le> 2 * (n div 2)" by simp
    also have "\<dots> \<le> n" by simp
    finally show ?thesis by (simp add: step)
  qed
qed

lemma bit_length_unique:
  assumes "2 ^ j \<le> 2 * n" and "n < 2 ^ j"
  shows "bit_length n = j"
proof -
  from assms have pos: "0 < n" by (cases "n = 0") simp_all
  have "(2::nat) ^ bit_length n \<le> 2 * n" using pos by (rule bit_length_lower)
  also have "\<dots> < 2 ^ Suc j" using assms(2) by simp
  finally have "bit_length n < Suc j" by (simp only: power_strict_increasing_iff)
  moreover have "(2::nat) ^ j \<le> 2 * n" by fact
  then have "(2::nat) ^ j < 2 ^ Suc (bit_length n)" using bit_length_upper [of n] by simp
  then have "j < Suc (bit_length n)" by (simp only: power_strict_increasing_iff)
  ultimately show ?thesis by simp
qed

lemma bit_length_scaled: "0 < m \<Longrightarrow> bit_length (m * 2 ^ k) = bit_length m + k"
proof (rule bit_length_unique)
  assume "0 < m"
  then have "2 ^ bit_length m * 2 ^ k \<le> (2 * m) * (2::nat) ^ k"
    by (intro mult_le_mono1 bit_length_lower)
  then show "2 ^ (bit_length m + k) \<le> 2 * (m * 2 ^ k)" by (simp add: power_add)
  have "m * 2 ^ k < 2 ^ bit_length m * (2::nat) ^ k"
    using bit_length_upper [of m] by simp
  then show "m * 2 ^ k < 2 ^ (bit_length m + k)" by (simp add: power_add)
qed

lemma bit_length_below: "n < 2 ^ j \<Longrightarrow> bit_length n \<le> j"
proof (cases "n = 0")
  case True
  then show ?thesis by (simp add: bit_length.simps)
next
  case False
  assume "n < 2 ^ j"
  from False have "(2::nat) ^ bit_length n \<le> 2 * n" by (intro bit_length_lower) simp
  also have "\<dots> < 2 ^ Suc j" using \<open>n < 2 ^ j\<close> by simp
  finally have "bit_length n < Suc j" by (simp only: power_strict_increasing_iff)
  then show ?thesis by simp
qed

lemma scaled_divisible:
  assumes "d \<le> 2 ^ 53"
  shows "(d * 2 ^ k) mod 2 ^ quantum (d * 2 ^ k) = 0"
proof -
  consider "d = 0" | "0 < d" "d < 2 ^ 53" | "d = 2 ^ 53" using assms by arith
  then show ?thesis
  proof cases
    case 1
    then show ?thesis by simp
  next
    case 2
    then have "bit_length d \<le> 53" by (intro bit_length_below)
    with 2(1) have "quantum (d * 2 ^ k) \<le> k" by (simp add: quantum_def bit_length_scaled)
    then have "(2::nat) ^ quantum (d * 2 ^ k) dvd 2 ^ k" by (rule le_imp_power_dvd)
    then have "2 ^ quantum (d * 2 ^ k) dvd d * 2 ^ k" by (rule dvd_mult)
    then show ?thesis by (simp add: mod_eq_0_iff_dvd)
  next
    case 3
    have "d * 2 ^ k = 2 ^ (53 + k)" by (simp add: 3 power_add)
    moreover have "quantum (2 ^ (53 + k)) = Suc k" by (simp add: quantum_def bit_length_power)
    moreover have "(2::nat) ^ Suc k dvd 2 ^ (53 + k)" by (intro le_imp_power_dvd) simp
    ultimately show ?thesis by (simp only: mod_eq_0_iff_dvd)
  qed
qed

lemma round_even_upper: "round_even p q \<le> p div q + 1"
  by (simp add: round_even_def Let_def)

lemma round_magnitude_divisible:
  "round_magnitude p q mod 2 ^ quantum (round_magnitude p q) = 0"
proof -
  define k where "k = quantum (p div q)"
  define d where "d = round_even p (q * 2 ^ k)"
  have "p div q < 2 ^ bit_length (p div q)" by (rule bit_length_upper)
  also have "bit_length (p div q) \<le> 53 + k" by (simp add: k_def quantum_def)
  then have "(2::nat) ^ bit_length (p div q) \<le> 2 ^ (53 + k)" by (intro power_increasing) simp_all
  finally have "p div q < 2 ^ 53 * 2 ^ k" by (simp add: power_add)
  then have "p div q div 2 ^ k < 2 ^ 53" by (simp add: less_mult_imp_div_less)
  then have "p div (q * 2 ^ k) < 2 ^ 53" by (simp add: div_mult2_eq)
  with round_even_upper [of p "q * 2 ^ k"] have "d \<le> 2 ^ 53" by (simp add: d_def)
  from scaled_divisible [OF this, of k] show ?thesis
    by (simp add: round_magnitude_def k_def [symmetric] d_def [symmetric])
qed

lemma round_double_valid: "valid_double (round_double s p q)"
  using round_magnitude_divisible [of p q]
  by (simp add: round_double_def Let_def representable_def)

lemma representable_0: "representable 0"
  by (simp add: representable_def)

lemma dneg_valid: "valid_double a \<Longrightarrow> valid_double (dneg a)"
  by (cases a) simp_all

lemma dadd_valid: "valid_double (dadd a b)"
  by (cases a; cases b) (simp_all add: Let_def round_int_def round_double_valid representable_0)

lemma dsub_valid: "valid_double (dsub a b)"
  by (simp add: dsub_def dadd_valid)

lemma dmul_valid: "valid_double (dmul a b)"
  by (cases a; cases b) (simp_all add: round_double_valid)

lemma ddiv_valid: "valid_double (ddiv a b)"
  by (cases a; cases b) (simp_all add: round_double_valid representable_0)

lemma dsqrt_valid: "valid_double (dsqrt a)"
  by (cases a) (simp_all add: Let_def round_double_valid representable_0)

lemma double_of_int_valid: "valid_double (double_of_int i)"
  by (simp add: double_of_int_def round_double_valid)

subsection \<open>The integer square root\<close>

lemma isqrt_small: "isqrt 0 = 0" "isqrt 1 = 1"
  by (subst isqrt.simps, simp)+

lemma isqrt_step:
  "\<not> n < 2 \<Longrightarrow> isqrt n =
     (if (2 * isqrt (n div 4) + 1) * (2 * isqrt (n div 4) + 1) \<le> n
      then 2 * isqrt (n div 4) + 1 else 2 * isqrt (n div 4))"
  by (subst isqrt.simps) (simp only: Let_def if_False)

lemma isqrt_bounds: "isqrt n * isqrt n \<le> n \<and> n < (isqrt n + 1) * (isqrt n + 1)"
proof (induction n rule: isqrt.induct)
  case (1 n)
  show ?case
  proof (cases "n < 2")
    case True
    then have "n = 0 \<or> n = 1" by arith
    then show ?thesis using isqrt_small by auto
  next
    case False
    define s where "s = isqrt (n div 4)"
    define r where "r = 2 * s"
    from 1 [OF False] have s: "s * s \<le> n div 4" "n div 4 < (s + 1) * (s + 1)"
      unfolding s_def by blast+
    have "r * r = 4 * (s * s)" by (simp add: r_def)
    also have "\<dots> \<le> 4 * (n div 4)" using s(1) by simp
    also have "\<dots> \<le> n" by simp
    finally have lower: "r * r \<le> n" .
    have "n < 4 * (n div 4) + 4" by arith
    also have "\<dots> \<le> 4 * ((s + 1) * (s + 1))" using s(2) by simp
    also have "\<dots> = (r + 2) * (r + 2)" by (simp add: r_def algebra_simps)
    finally have upper: "n < (r + 2) * (r + 2)" .
    have step: "isqrt n = (if (r + 1) * (r + 1) \<le> n then r + 1 else r)"
      unfolding r_def s_def using False by (rule isqrt_step)
    show ?thesis
    proof (cases "(r + 1) * (r + 1) \<le> n")
      case True
      then have "isqrt n = r + 1" using step by simp
      moreover have "r + 1 + 1 = r + 2" by simp
      ultimately show ?thesis using True upper by simp
    next
      case False
      then have "isqrt n = r" using step by simp
      with False lower show ?thesis by simp
    qed
  qed
qed

lemma square_le_imp_le:
  fixes a b :: nat
  assumes "a * a \<le> b * b"
  shows "a \<le> b"
proof (rule ccontr)
  assume "\<not> a \<le> b"
  then have "b < a" by simp
  then have "b * b < a * a" by (intro mult_strict_mono) simp_all
  with assms show False by simp
qed

lemma isqrt_square: "isqrt (k * k) = k"
proof (rule antisym)
  from isqrt_bounds [of "k * k"] have "isqrt (k * k) * isqrt (k * k) \<le> k * k" by simp
  then show "isqrt (k * k) \<le> k" by (rule square_le_imp_le)
  from isqrt_bounds [of "k * k"] have "k * k < (isqrt (k * k) + 1) * (isqrt (k * k) + 1)"
    by simp
  then have "\<not> (isqrt (k * k) + 1) * (isqrt (k * k) + 1) \<le> k * k" by simp
  then have "\<not> isqrt (k * k) + 1 \<le> k" using mult_le_mono [of "isqrt (k * k) + 1" k] by blast
  then show "k \<le> isqrt (k * k)" by simp
qed

subsection \<open>Integers below \<open>2\<^sup>5\<^sup>3\<close> are computed exactly\<close>

lemma representable_integer: "m < 2 ^ 53 \<Longrightarrow> representable (m * one_units)"
proof -
  assume m: "m < 2 ^ 53"
  then have "m * 2 ^ 1074 \<le> (2 ^ 53 - 1) * (2::nat) ^ 1074" by (intro mult_le_mono1) simp
  also have "\<dots> \<le> (2 ^ 53 - 1) * 2 ^ 2045" by (intro mult_le_mono2 power_increasing) simp_all
  finally have "m * one_units \<le> max_finite" by (simp add: one_units_def max_finite_def)
  moreover from m have "(m * 2 ^ 1074) mod 2 ^ quantum (m * 2 ^ 1074) = 0"
    by (intro scaled_divisible) simp
  ultimately show ?thesis by (simp add: representable_def one_units_def)
qed

lemma double_of_nat_exact:
  "m < 2 ^ 53 \<Longrightarrow> double_of_int (int m) = Finite False (m * one_units)"
  using round_double_exact [OF representable_integer, of m 1 False]
  by (simp add: double_of_int_def)

lemma dadd_integers:
  assumes "a + b < 2 ^ 53"
  shows "dadd (Finite False (a * one_units)) (Finite False (b * one_units)) =
    Finite False ((a + b) * one_units)"
proof (cases "a + b = 0")
  case True
  then show ?thesis by (simp add: signed_magnitude_def)
next
  case False
  have sum: "signed_magnitude False (a * one_units) + signed_magnitude False (b * one_units) =
      signed_magnitude False ((a + b) * one_units)"
    by (simp add: signed_magnitude_def algebra_simps)
  from False one_units_positive have "(a + b) * one_units \<noteq> 0" by simp
  with round_int_signed_magnitude [OF representable_integer [OF assms], of False]
  show ?thesis unfolding dadd_finite sum by (simp add: signed_magnitude_zero)
qed

lemma dmul_integers:
  assumes "a * b < 2 ^ 53"
  shows "dmul (Finite False (a * one_units)) (Finite False (b * one_units)) =
    Finite False (a * b * one_units)"
  using round_double_exact [OF representable_integer [OF assms] one_units_positive, of False]
  by (simp add: mult_ac)

lemma dsqrt_square:
  assumes "m < 2 ^ 53" and "0 < m"
  shows "dsqrt (Finite False (m * m * one_units)) = Finite False (m * one_units)"
proof -
  have a: "4 * (m * m * one_units * one_units) = (2 * m * one_units) * (2 * m * one_units)"
    by (simp add: mult_ac)
  have r: "isqrt (4 * (m * m * one_units * one_units)) = 2 * m * one_units"
    unfolding a by (rule isqrt_square)
  have "round_double False (m * one_units * 4) 4 = Finite False (m * one_units)"
    by (intro round_double_exact representable_integer assms) simp
  then have "round_double False (4 * (m * one_units)) 4 = Finite False (m * one_units)"
    by (simp only: mult.commute [of 4])
  then show ?thesis
    using assms(2) one_units_positive by (simp add: Let_def r a [symmetric])
qed

lemma double_of_small_ints:
  "double_of_int 2 = Finite False (2 * one_units)"
  "double_of_int 3 = Finite False (3 * one_units)"
  "double_of_int 4 = Finite False (4 * one_units)"
  "double_of_int 5 = Finite False (5 * one_units)"
  "double_of_int 6 = Finite False (6 * one_units)"
  "double_of_int 7 = Finite False (7 * one_units)"
  "double_of_int 9 = Finite False (9 * one_units)"
  using double_of_nat_exact [of 2] double_of_nat_exact [of 3] double_of_nat_exact [of 4]
    double_of_nat_exact [of 5] double_of_nat_exact [of 6] double_of_nat_exact [of 7]
    double_of_nat_exact [of 9]
  by simp_all

subsection \<open>Rounding depends on the ratio only\<close>

lemma round_even_ratio: "0 < c \<Longrightarrow> round_even (p * c) (q * c) = round_even p q"
  by (simp add: round_even_def Let_def mult.assoc [symmetric])

lemma round_magnitude_ratio:
  assumes "0 < c"
  shows "round_magnitude (p * c) (q * c) = round_magnitude p q"
proof -
  have "round_even (p * c) (q * c * 2 ^ k) = round_even p (q * 2 ^ k)" for k
  proof -
    have "q * c * 2 ^ k = q * 2 ^ k * c" by (simp add: mult_ac)
    with assms show ?thesis by (simp only: round_even_ratio)
  qed
  with assms show ?thesis by (simp add: round_magnitude_def)
qed

lemma round_double_ratio: "0 < c \<Longrightarrow> round_double s (p * c) (q * c) = round_double s p q"
  by (simp add: round_double_def round_magnitude_ratio)

lemma bit_length_div_scaled:
  assumes "0 < q" and "0 < p div q"
  shows "bit_length ((p * 2 ^ j) div q) = bit_length (p div q) + j"
proof (rule bit_length_unique)
  define x where "x = p div q"
  have "x * 2 ^ j * q \<le> p * 2 ^ j" by (simp add: x_def mult.commute mult.left_commute)
  then have low: "x * 2 ^ j \<le> (p * 2 ^ j) div q" using assms(1) by (simp add: less_eq_div_iff_mult_less_eq)
  have "2 ^ bit_length x * 2 ^ j \<le> 2 * x * (2::nat) ^ j"
    using assms(2) by (intro mult_le_mono1 bit_length_lower) (simp add: x_def)
  also have "\<dots> \<le> 2 * ((p * 2 ^ j) div q)" using low by simp
  finally show "2 ^ (bit_length (p div q) + j) \<le> 2 * ((p * 2 ^ j) div q)"
    by (simp add: x_def power_add)
  have "p < (x + 1) * q" using assms(1) by (simp add: x_def dividend_less_times_div mult.commute)
  also have "\<dots> \<le> 2 ^ bit_length x * q"
    using bit_length_upper [of x] by (intro mult_le_mono1) simp
  finally have "p * 2 ^ j < 2 ^ bit_length x * q * 2 ^ j" by simp
  then have "p * 2 ^ j < 2 ^ (bit_length x + j) * q" by (simp add: power_add mult_ac)
  then show "(p * 2 ^ j) div q < 2 ^ (bit_length (p div q) + j)"
    using assms(1) by (simp add: x_def div_less_iff_less_mult)
qed

lemma round_magnitude_scaled:
  assumes "0 < q" and "53 \<le> bit_length (p div q)"
  shows "round_magnitude (p * 2 ^ j) q = round_magnitude p q * 2 ^ j"
proof -
  have "p div q \<noteq> 0"
  proof
    assume "p div q = 0"
    then have "bit_length (p div q) = 0" by (simp add: bit_length.simps)
    with assms(2) show False by simp
  qed
  then have len: "bit_length ((p * 2 ^ j) div q) = bit_length (p div q) + j"
    using assms(1) by (intro bit_length_div_scaled) simp_all
  define k where "k = quantum (p div q)"
  from len assms(2) have k: "quantum ((p * 2 ^ j) div q) = k + j"
    by (simp add: quantum_def k_def)
  have "round_even (p * 2 ^ j) (q * 2 ^ k * 2 ^ j) = round_even p (q * 2 ^ k)"
    by (rule round_even_ratio) simp
  then show ?thesis
    by (simp add: round_magnitude_def k k_def [symmetric] power_add mult.assoc)
qed

subsection \<open>Known results of binary64 arithmetic\<close>

text \<open>
  The model against bit patterns every IEEE 754 implementation produces: \<open>1.0 / 3.0\<close>,
  \<open>0.1 + 0.2\<close>, ties going to the even neighbour, overflow to infinity, and the special
  encodings.
\<close>

lemma round_double_scaled:
  assumes "0 < q" and "53 \<le> bit_length (p div q)" and "round_magnitude p q = m"
  shows "round_double s (p * 2 ^ j) q =
    (if max_finite < m * 2 ^ j then Infinite s else Finite s (m * 2 ^ j))"
  using round_magnitude_scaled [OF assms(1,2), of j] assms(3)
  by (simp add: round_double_def)

lemma bit_length_numeral:
  "bit_length (numeral (Num.Bit0 k)) = Suc (bit_length (numeral k))"
  "bit_length (numeral (Num.Bit1 k)) = Suc (bit_length (numeral k))"
  "bit_length (numeral Num.One) = 1" "bit_length 1 = 1" "bit_length 0 = 0"
  "bit_length (Suc 0) = 1"
  by (subst bit_length.simps, simp)+

lemma third: "ddiv (double_of_int 1) (double_of_int 3) = double_of_bits 0x3FD5555555555555"
proof -
  have "ddiv (double_of_int 1) (double_of_int 3) =
      round_double False (one_units * one_units) (3 * one_units)"
    using one_units_positive by (simp add: double_of_int_1 double_of_small_ints)
  also have "\<dots> = round_double False one_units 3"
    using one_units_positive by (rule round_double_ratio)
  also have "one_units = 2 ^ 55 * 2 ^ 1019"
    by (simp only: one_units_def power_add [symmetric]) simp
  also have "round_double False (2 ^ 55 * 2 ^ 1019) 3 =
      (if max_finite < 12009599006321322 * 2 ^ 1019 then Infinite False
       else Finite False (12009599006321322 * 2 ^ 1019))"
    by (rule round_double_scaled)
      (simp_all add: bit_length_numeral round_magnitude_def round_even_def quantum_def Let_def)
  also have "\<dots> = double_of_bits 0x3FD5555555555555"
    by (simp add: double_of_bits_def max_finite_def)
  finally show ?thesis .
qed

lemma dadd_positive:
  assumes "0 < m + n"
  shows "dadd (Finite False m) (Finite False n) = round_double False (m + n) 1"
proof -
  have sum: "signed_magnitude False m + signed_magnitude False n = int (m + n)"
    by (simp add: signed_magnitude_def)
  from assms have "int (m + n) \<noteq> 0" by (simp only: of_nat_eq_0_iff)
  then have "dadd (Finite False m) (Finite False n) = round_int (int (m + n))"
    unfolding dadd_finite sum by (simp only: if_False)
  also have "\<dots> = round_double False (m + n) 1"
    by (simp add: round_int_def del: of_nat_add)
  finally show ?thesis .
qed

lemma sum_scaled:
  "dadd (Finite False (7205759403792794 * 2 ^ j)) (Finite False (7205759403792794 * 2 ^ Suc j)) =
    (if max_finite < 21617278211378384 * 2 ^ j then Infinite False
     else Finite False (21617278211378384 * 2 ^ j))"
proof -
  have "dadd (Finite False (7205759403792794 * 2 ^ j))
      (Finite False (7205759403792794 * 2 ^ Suc j)) =
      round_double False (7205759403792794 * 2 ^ j + 7205759403792794 * 2 ^ Suc j) 1"
    by (rule dadd_positive) simp
  also have "7205759403792794 * 2 ^ j + 7205759403792794 * 2 ^ Suc j =
      21617278211378382 * (2::nat) ^ j"
    by simp
  also have "round_double False (21617278211378382 * 2 ^ j) 1 =
      (if max_finite < 21617278211378384 * 2 ^ j then Infinite False
       else Finite False (21617278211378384 * 2 ^ j))"
    by (rule round_double_scaled)
      (simp_all add: bit_length_numeral round_magnitude_def round_even_def quantum_def Let_def)
  finally show ?thesis .
qed

lemma tenth_plus_fifth:
  "dadd (double_of_bits 0x3FB999999999999A) (double_of_bits 0x3FC999999999999A) =
   double_of_bits 0x3FD3333333333334"
proof -
  have "double_of_bits 0x3FB999999999999A = Finite False (7205759403792794 * 2 ^ 1018)"
    "double_of_bits 0x3FC999999999999A = Finite False (7205759403792794 * 2 ^ Suc 1018)"
    "double_of_bits 0x3FD3333333333334 = Finite False (21617278211378384 * 2 ^ 1018)"
    by (simp_all add: double_of_bits_def)
  moreover have "\<not> max_finite < 21617278211378384 * 2 ^ 1018"
    by (simp add: max_finite_def)
  ultimately show ?thesis using sum_scaled [of 1018] by (simp only: if_False)
qed

lemma ties_to_even:
  "double_of_int (2 ^ 53 + 1) = double_of_int (2 ^ 53)"
  "double_of_int (2 ^ 53 + 3) = double_of_int (2 ^ 53 + 4)"
proof -
  have up: "round_double False (9007199254740995 * 2 ^ 1074) 1 =
      (if max_finite < 9007199254740996 * 2 ^ 1074 then Infinite False
       else Finite False (9007199254740996 * 2 ^ 1074))"
    by (rule round_double_scaled)
      (simp_all add: bit_length_numeral round_magnitude_def round_even_def quantum_def Let_def)
  have down: "round_double False (9007199254740993 * 2 ^ 1074) 1 =
      (if max_finite < 9007199254740992 * 2 ^ 1074 then Infinite False
       else Finite False (9007199254740992 * 2 ^ 1074))"
    by (rule round_double_scaled)
      (simp_all add: bit_length_numeral round_magnitude_def round_even_def quantum_def Let_def)
  have exact: "round_double False (9007199254740992 * 2 ^ 1074) 1 =
      (if max_finite < 9007199254740992 * 2 ^ 1074 then Infinite False
       else Finite False (9007199254740992 * 2 ^ 1074))"
    "round_double False (9007199254740996 * 2 ^ 1074) 1 =
      (if max_finite < 9007199254740996 * 2 ^ 1074 then Infinite False
       else Finite False (9007199254740996 * 2 ^ 1074))"
    by (rule round_double_scaled;
        simp add: bit_length_numeral round_magnitude_def round_even_def quantum_def Let_def)+
  show "double_of_int (2 ^ 53 + 1) = double_of_int (2 ^ 53)"
    unfolding double_of_int_def one_units_def using down exact(1) by simp
  show "double_of_int (2 ^ 53 + 3) = double_of_int (2 ^ 53 + 4)"
    unfolding double_of_int_def one_units_def using up exact(2) by simp
qed

lemma overflow:
  "dadd (double_of_bits 0x7FEFFFFFFFFFFFFF) (double_of_bits 0x7FEFFFFFFFFFFFFF) = Infinite False"
  "dmul (double_of_bits 0x7FEFFFFFFFFFFFFF) (double_of_int 2) = Infinite False"
proof -
  have big: "double_of_bits 0x7FEFFFFFFFFFFFFF = Finite False (9007199254740991 * 2 ^ 2045)"
    by (simp add: double_of_bits_def)
  have "round_double False (18014398509481982 * 2 ^ 2045) 1 =
      (if max_finite < 18014398509481982 * 2 ^ 2045 then Infinite False
       else Finite False (18014398509481982 * 2 ^ 2045))"
    by (rule round_double_scaled)
      (simp_all add: bit_length_numeral round_magnitude_def round_even_def quantum_def Let_def)
  moreover have "max_finite < 18014398509481982 * 2 ^ 2045" by (simp add: max_finite_def)
  ultimately have twice: "round_double False (18014398509481982 * 2 ^ 2045) 1 = Infinite False"
    by (simp only: if_True)
  have "dadd (Finite False (9007199254740991 * 2 ^ 2045))
      (Finite False (9007199254740991 * 2 ^ 2045)) =
      round_double False (9007199254740991 * 2 ^ 2045 + 9007199254740991 * 2 ^ 2045) 1"
    by (rule dadd_positive) simp
  also have "9007199254740991 * 2 ^ 2045 + 9007199254740991 * 2 ^ 2045 =
      18014398509481982 * (2::nat) ^ 2045"
    by simp
  finally show "dadd (double_of_bits 0x7FEFFFFFFFFFFFFF) (double_of_bits 0x7FEFFFFFFFFFFFFF) =
      Infinite False"
    by (simp only: big twice)
  have "dmul (Finite False (9007199254740991 * 2 ^ 2045)) (Finite False (2 * one_units)) =
      round_double False (18014398509481982 * 2 ^ 2045 * one_units) (1 * one_units)"
    by (simp add: mult_ac)
  also have "\<dots> = round_double False (18014398509481982 * 2 ^ 2045) 1"
    using one_units_positive by (rule round_double_ratio)
  finally show "dmul (double_of_bits 0x7FEFFFFFFFFFFFFF) (double_of_int 2) = Infinite False"
    by (simp only: big twice double_of_small_ints)
qed

lemma double_of_bits_valid: "valid_double (double_of_bits w)"
proof -
  define ex where "ex = unat (and (drop_bit 52 w) 0x7FF)"
  define fr where "fr = unat (and w 0xFFFFFFFFFFFFF)"
  have "and w 0xFFFFFFFFFFFFF \<le> 0xFFFFFFFFFFFFF" by (rule word_and_le1)
  then have fr: "fr < 2 ^ 52" by (simp add: fr_def word_le_nat_alt)
  have "and (drop_bit 52 w) 0x7FF \<le> 0x7FF" by (rule word_and_le1)
  then have ex: "ex \<le> 2047" by (simp add: ex_def word_le_nat_alt)
  have subnormal: "representable fr"
  proof -
    from fr have "bit_length fr \<le> 52" by (rule bit_length_below)
    then have "quantum fr = 0" by (simp add: quantum_def)
    moreover have "fr \<le> max_finite"
    proof -
      from fr have "fr \<le> (2 ^ 53 - 1) * 1" by simp
      also have "\<dots> \<le> (2 ^ 53 - 1) * 2 ^ 2045" by (intro mult_le_mono2) simp
      finally show ?thesis by (simp add: max_finite_def)
    qed
    ultimately show ?thesis by (simp add: representable_def)
  qed
  have normal: "representable ((2 ^ 52 + fr) * 2 ^ (ex - 1))" if "ex \<noteq> 2047"
  proof -
    from that ex have "ex - 1 \<le> 2045" by simp
    then have "(2::nat) ^ (ex - 1) \<le> 2 ^ 2045" by (intro power_increasing) simp_all
    moreover from fr have "2 ^ 52 + fr \<le> 2 ^ 53 - 1" by simp
    ultimately have "(2 ^ 52 + fr) * 2 ^ (ex - 1) \<le> (2 ^ 53 - 1) * 2 ^ 2045"
      by (rule mult_le_mono [rotated])
    moreover from fr have "((2 ^ 52 + fr) * 2 ^ (ex - 1)) mod
        2 ^ quantum ((2 ^ 52 + fr) * 2 ^ (ex - 1)) = 0"
      by (intro scaled_divisible) simp
    ultimately show ?thesis by (simp only: representable_def max_finite_def)
  qed
  from subnormal normal show ?thesis
    by (simp add: double_of_bits_def Let_def ex_def [symmetric] fr_def [symmetric])
qed

lemma double_of_bits_special:
  "double_of_bits 0x0000000000000000 = Finite False 0"
  "double_of_bits 0x8000000000000000 = Finite True 0"
  "double_of_bits 0x0000000000000001 = Finite False 1"
  "double_of_bits 0x7FF0000000000000 = Infinite False"
  "double_of_bits 0xFFF0000000000000 = Infinite True"
  "double_of_bits 0x7FF8000000000000 = NaN"
  "double_of_bits 0x3FF0000000000000 = double_of_int 1"
  "double_of_bits 0x7FEFFFFFFFFFFFFF = Finite False max_finite"
  by (simp_all add: double_of_bits_def double_of_int_1 one_units_def max_finite_def)

section \<open>Indexed access\<close>

lemma word_index_cases:
  fixes i :: "32 word"
  shows "i \<in> {0, 1, 2} \<longleftrightarrow> \<not> 2 < i"
proof
  assume "i \<in> {0, 1, 2}"
  then show "\<not> 2 < i" by auto
next
  assume "\<not> 2 < i"
  then have "i = 0 \<or> i = 1 \<or> i = 2" by unat_arith
  then show "i \<in> {0, 1, 2}" by simp
qed

lemma unat_index:
  fixes i :: "32 word"
  shows "\<not> 2 < i \<Longrightarrow> unat i < 3"
  by (simp add: word_less_nat_alt not_less)

lemma array_read_inside: "k < 3 \<Longrightarrow> \<exists>a. array_read v k = Inr a"
  by (simp add: array_read_def)

lemma array_write_inside: "k < 3 \<Longrightarrow> \<exists>w. array_write v k t = Inr w"
  by (simp add: array_write_def)

lemma index_throws:
  assumes "2 < i"
  shows "\<exists>m. vec3_index v i = Inl (invalid_argument m)"
    and "\<exists>m. vec3_index_mut_read v i = Inl (invalid_argument m)"
    and "\<exists>m. vec3_index_mut_write v i t = Inl (invalid_argument m)"
  using assms by (simp_all add: vec3_index_def vec3_index_mut_read_def vec3_index_mut_write_def)

lemma index_returns:
  assumes "\<not> 2 < i"
  shows "\<exists>a. vec3_index v i = Inr a"
    and "\<exists>a. vec3_index_mut_read v i = Inr a"
    and "\<exists>w. vec3_index_mut_write v i t = Inr w"
  using assms array_read_inside [OF unat_index [OF assms]]
    array_write_inside [OF unat_index [OF assms]]
  by (simp_all add: vec3_index_def vec3_index_mut_read_def vec3_index_mut_write_def)

text \<open>
  C1. An index outside \<open>{0, 1, 2}\<close> makes the \<open>const\<close> accessor, a read through the
  reference and an assignment through the reference all throw \<open>std::invalid_argument\<close>.
  The accessors fail for no other index and with no other error, and the two paths fail
  on the same indices. Every other operation of the two headers is a total function of
  the model, with no error in its result type.
\<close>

theorem index_outside_throws:
  "(i \<notin> {0, 1, 2} \<longrightarrow>
      (\<exists>m. vec3_index v i = Inl (invalid_argument m)) \<and>
      (\<exists>m. vec3_index_mut_read v i = Inl (invalid_argument m)) \<and>
      (\<exists>m. vec3_index_mut_write v i t = Inl (invalid_argument m))) \<and>
   (\<forall>err. vec3_index v i = Inl err \<or> vec3_index_mut_read v i = Inl err \<or>
      vec3_index_mut_write v i t = Inl err \<longrightarrow>
      i \<notin> {0, 1, 2} \<and> (\<exists>m. err = invalid_argument m)) \<and>
   isl (vec3_index v i) = isl (vec3_index_mut_read v i) \<and>
   isl (vec3_index v i) = isl (vec3_index_mut_write v i t)"
proof (cases "2 < i")
  case True
  then have out: "i \<notin> {0, 1, 2}" using word_index_cases [of i] by blast
  from index_throws(1) [OF True, of v] index_throws(2) [OF True, of v]
    index_throws(3) [OF True, of v t] obtain m1 m2 m3 where
    "vec3_index v i = Inl (invalid_argument m1)"
    "vec3_index_mut_read v i = Inl (invalid_argument m2)"
    "vec3_index_mut_write v i t = Inl (invalid_argument m3)"
    by blast
  with out show ?thesis by auto
next
  case False
  then have inside: "i \<in> {0, 1, 2}" using word_index_cases [of i] by blast
  from index_returns(1) [OF False, of v] index_returns(2) [OF False, of v]
    index_returns(3) [OF False, of v t] obtain a b w where
    "vec3_index v i = Inr a" "vec3_index_mut_read v i = Inr b"
    "vec3_index_mut_write v i t = Inr w"
    by blast
  with inside show ?thesis by auto
qed

theorem index_outside_throws_witness:
  "(5 :: 32 word) \<notin> {0, 1, 2} \<and>
   vec3_index (Vec3 (double_of_int 1) (double_of_int 2) (double_of_int 3)) 5 =
     Inl (invalid_argument ''Index out of bounds: vector index must be 0, 1, or 2!'') \<and>
   (\<exists>m. vec3_index_mut_write (Vec3 (double_of_int 1) (double_of_int 2) (double_of_int 3)) 5 NaN =
     Inl (invalid_argument m)) \<and>
   (\<exists>m. vec3_index_mut_read (Vec3 (double_of_int 1) (double_of_int 2) (double_of_int 3)) 5 =
     Inl (invalid_argument m))"
proof -
  have "(5 :: 32 word) \<notin> {0, 1, 2}" by simp
  moreover have "vec3_index (Vec3 (double_of_int 1) (double_of_int 2) (double_of_int 3)) 5 =
     Inl (invalid_argument ''Index out of bounds: vector index must be 0, 1, or 2!'')"
    by (simp add: vec3_index_def)
  ultimately show ?thesis
    using index_outside_throws
      [of 5 "Vec3 (double_of_int 1) (double_of_int 2) (double_of_int 3)" NaN]
    by blast
qed

lemma array_write_read:
  "k < 3 \<Longrightarrow> array_write v k t = Inr w \<Longrightarrow> array_read w k = Inr t"
  by (auto simp add: array_write_def array_read_def split: if_splits)

lemma array_write_other:
  "k < 3 \<Longrightarrow> j \<noteq> k \<Longrightarrow> array_write v k t = Inr w \<Longrightarrow> array_read w j = array_read v j"
  by (auto simp add: array_write_def array_read_def split: if_splits)

lemma unat_index_inject:
  fixes i j :: "32 word"
  shows "i \<noteq> j \<Longrightarrow> unat i \<noteq> unat j"
  by (simp add: word_unat_eq_iff)

text \<open>
  C3. On the vector built from \<open>(x, y, z)\<close> the accessor returns \<open>x\<close>, \<open>y\<close>, \<open>z\<close> at the
  indices 0, 1, 2. An assignment through \<open>v[i]\<close> with \<open>i\<close> in \<open>{0, 1, 2}\<close> succeeds, a read
  at \<open>i\<close> afterwards (through either overload) returns the value assigned, and the reads
  at the two other indices return what they returned before.
\<close>

theorem index_read_write:
  "vec3_index (Vec3 x y z) 0 = Inr x \<and>
   vec3_index (Vec3 x y z) 1 = Inr y \<and>
   vec3_index (Vec3 x y z) 2 = Inr z \<and>
   (i \<in> {0, 1, 2} \<longrightarrow>
      (\<exists>w. vec3_index_mut_write v i t = Inr w \<and>
         vec3_index w i = Inr t \<and> vec3_index_mut_read w i = Inr t \<and>
         (\<forall>j. j \<in> {0, 1, 2} \<and> j \<noteq> i \<longrightarrow>
            vec3_index w j = vec3_index v j \<and>
            vec3_index_mut_read w j = vec3_index_mut_read v j)))"
proof -
  have reads: "vec3_index (Vec3 x y z) 0 = Inr x" "vec3_index (Vec3 x y z) 1 = Inr y"
    "vec3_index (Vec3 x y z) 2 = Inr z"
    by (simp_all add: vec3_index_def array_read_def)
  have writes: "\<exists>w. vec3_index_mut_write v i t = Inr w \<and>
         vec3_index w i = Inr t \<and> vec3_index_mut_read w i = Inr t \<and>
         (\<forall>j. j \<in> {0, 1, 2} \<and> j \<noteq> i \<longrightarrow>
            vec3_index w j = vec3_index v j \<and>
            vec3_index_mut_read w j = vec3_index_mut_read v j)" if "i \<in> {0, 1, 2}"
  proof -
    from that have small: "\<not> 2 < i" using word_index_cases [of i] by blast
    then have k: "unat i < 3" by (rule unat_index)
    from array_write_inside [OF k] obtain w where w: "array_write v (unat i) t = Inr w"
      by blast
    have "vec3_index_mut_write v i t = Inr w"
      using small w by (simp add: vec3_index_mut_write_def)
    moreover have "vec3_index w i = Inr t" "vec3_index_mut_read w i = Inr t"
      using small array_write_read [OF k w]
      by (simp_all add: vec3_index_def vec3_index_mut_read_def)
    moreover have "vec3_index w j = vec3_index v j \<and>
        vec3_index_mut_read w j = vec3_index_mut_read v j" if "j \<noteq> i" for j
      using array_write_other [OF k unat_index_inject [OF that] w]
      by (simp add: vec3_index_def vec3_index_mut_read_def)
    ultimately show ?thesis by blast
  qed
  from reads writes show ?thesis by blast
qed

theorem index_read_write_witness:
  "(1 :: 32 word) \<in> {0, 1, 2} \<and> (2 :: 32 word) \<in> {0, 1, 2} \<and> (2 :: 32 word) \<noteq> 1 \<and>
   vec3_index_mut_write (Vec3 NaN (Infinite False) (Finite True 0)) 1 (Finite False 7) =
     Inr (Vec3 NaN (Finite False 7) (Finite True 0)) \<and>
   vec3_index (Vec3 NaN (Finite False 7) (Finite True 0)) 1 = Inr (Finite False 7) \<and>
   vec3_index (Vec3 NaN (Finite False 7) (Finite True 0)) 2 =
     vec3_index (Vec3 NaN (Infinite False) (Finite True 0)) 2"
proof -
  have "vec3_index_mut_write (Vec3 NaN (Infinite False) (Finite True 0)) 1 (Finite False 7) =
     Inr (Vec3 NaN (Finite False 7) (Finite True 0))"
    by (simp add: vec3_index_mut_write_def array_write_def)
  then show ?thesis
    using index_read_write [of _ _ _ 1 "Vec3 NaN (Infinite False) (Finite True 0)"
        "Finite False 7"]
    by auto
qed

text \<open>
  C10. For an index in \<open>{0, 1, 2}\<close> neither accessor throws, and the element it reaches
  is one of the three of the array. For no index at all does an accessor reach the array
  outside its three elements: whenever the guard lets an index through it is below 3.
\<close>

theorem index_stays_inside:
  "(i \<in> {0, 1, 2} \<longrightarrow>
      unat i < 3 \<and> (\<exists>a. vec3_index v i = Inr a) \<and> (\<exists>a. vec3_index_mut_read v i = Inr a) \<and>
      (\<exists>w. vec3_index_mut_write v i t = Inr w)) \<and>
   (\<not> 2 < i \<longrightarrow> unat i < 3) \<and>
   vec3_index v i \<noteq> Inl outside_storage \<and>
   vec3_index_mut_read v i \<noteq> Inl outside_storage \<and>
   vec3_index_mut_write v i t \<noteq> Inl outside_storage"
proof (cases "2 < i")
  case True
  then have "i \<notin> {0, 1, 2}" using word_index_cases [of i] by blast
  with True show ?thesis
    by (simp add: vec3_index_def vec3_index_mut_read_def vec3_index_mut_write_def)
next
  case False
  from index_returns(1) [OF False, of v] index_returns(2) [OF False, of v]
    index_returns(3) [OF False, of v t] obtain a b w where
    "vec3_index v i = Inr a" "vec3_index_mut_read v i = Inr b"
    "vec3_index_mut_write v i t = Inr w"
    by blast
  with unat_index [OF False] show ?thesis by simp
qed

theorem index_stays_inside_witness:
  "(2 :: 32 word) \<in> {0, 1, 2} \<and> \<not> (2 :: 32 word) < 2 \<and> unat (2 :: 32 word) < 3 \<and>
   vec3_index (Vec3 NaN (Infinite False) (Finite True 0)) 2 = Inr (Finite True 0) \<and>
   (\<exists>w. vec3_index_mut_write (Vec3 NaN (Infinite False) (Finite True 0)) 2 NaN = Inr w)"
proof -
  have "vec3_index (Vec3 NaN (Infinite False) (Finite True 0)) 2 = Inr (Finite True 0)"
    by (simp add: vec3_index_def array_read_def)
  then show ?thesis
    using index_stays_inside [of 2 "Vec3 NaN (Infinite False) (Finite True 0)" NaN]
    by simp
qed

section \<open>Scalar multiples, norms and compound assignment\<close>

text \<open>
  C4. \<open>v * t\<close> is computed as \<open>t * v\<close>: the two overloads return the same vector, whose
  components are \<open>t * v.x()\<close>, \<open>t * v.y()\<close> and \<open>t * v.z()\<close>, for every \<open>v\<close> and \<open>t\<close>, NaN
  and the infinities included.
\<close>

theorem scalar_times_commutes:
  "vec3_times_scalar v t = scalar_times_vec3 t v \<and>
   vec3_times_scalar v t = Vec3 (dmul t (e0 v)) (dmul t (e1 v)) (dmul t (e2 v)) \<and>
   scalar_times_vec3 t v = Vec3 (dmul t (e0 v)) (dmul t (e1 v)) (dmul t (e2 v))"
  by (simp add: vec3_times_scalar_def scalar_times_vec3_def vec3_x_def vec3_y_def vec3_z_def)

text \<open>
  C9. \<open>v.dot(v)\<close> and \<open>v.length_squared()\<close> are the same sum of the same three products,
  added in the same order, so the two results are the same \<open>double\<close>.
\<close>

theorem dot_self_is_length_squared:
  "vec3_dot v v = vec3_length_squared v \<and>
   vec3_length_squared v =
     dadd (dadd (dmul (e0 v) (e0 v)) (dmul (e1 v) (e1 v))) (dmul (e2 v) (e2 v))"
  by (simp add: vec3_dot_def vec3_length_squared_def vec3_x_def vec3_y_def vec3_z_def)

lemma vec3_times_assign_components:
  "vec3_times_assign v t =
     (Vec3 (dmul (e0 v) t) (dmul (e1 v) t) (dmul (e2 v) t),
      Vec3 (dmul (e0 v) t) (dmul (e1 v) t) (dmul (e2 v) t))"
  by (simp add: vec3_times_assign_def Let_def)

text \<open>
  C6. \<open>v /= t\<close> returns what \<open>v *= (1 / t)\<close> returns and leaves the receiver as that
  leaves it; the value returned is the receiver. When \<open>t\<close> is a zero, \<open>1 / t\<close> is an
  infinity and every component of the result is an infinity or NaN.
\<close>

theorem div_assign_is_times_assign:
  "vec3_div_assign v t = vec3_times_assign v (ddiv (double_of_int 1) t) \<and>
   fst (vec3_div_assign v t) = snd (vec3_div_assign v t) \<and>
   (is_zero t \<longrightarrow>
      is_infinite (ddiv (double_of_int 1) t) \<and>
      vec3_all (\<lambda>c. is_infinite c \<or> is_nan c) (snd (vec3_div_assign v t)))"
proof -
  have "vec3_all (\<lambda>c. is_infinite c \<or> is_nan c) (snd (vec3_div_assign v t))" if "is_zero t"
    using dmul_infinite [OF ddiv_one_zero [OF that]]
    by (simp add: vec3_div_assign_def vec3_times_assign_components vec3_all_def)
  then show ?thesis
    using ddiv_one_zero [of t]
    by (simp add: vec3_div_assign_def vec3_times_assign_components)
qed

theorem div_assign_is_times_assign_witness:
  "is_zero (Finite False 0) \<and>
   ddiv (double_of_int 1) (Finite False 0) = Infinite False \<and>
   vec3_div_assign (Vec3 (double_of_int 1) (Finite False 0) (Finite True 5)) (Finite False 0) =
     (Vec3 (Infinite False) NaN (Infinite True), Vec3 (Infinite False) NaN (Infinite True))"
proof -
  have "ddiv (double_of_int 1) (Finite False 0) = Infinite False"
    using one_units_positive by (simp add: double_of_int_1)
  moreover have
    "vec3_times_assign (Vec3 (double_of_int 1) (Finite False 0) (Finite True 5))
       (Infinite False) =
     (Vec3 (Infinite False) NaN (Infinite True), Vec3 (Infinite False) NaN (Infinite True))"
    using one_units_positive by (simp add: vec3_times_assign_components double_of_int_1)
  ultimately show ?thesis
    using div_assign_is_times_assign
      [of "Vec3 (double_of_int 1) (Finite False 0) (Finite True 5)" "Finite False 0"]
    by simp
qed

lemma round_double_underflow: "2 * p < q \<Longrightarrow> round_double s p q = Finite s 0"
  by (simp add: round_double_def round_magnitude_def round_even_def quantum_def
      bit_length.simps)

lemma vec3_unit_vector_components:
  "vec3_unit_vector v =
     Vec3 (ddiv (e0 v) (vec3_length v)) (ddiv (e1 v) (vec3_length v))
       (ddiv (e2 v) (vec3_length v))"
  by (simp add: vec3_unit_vector_def vec3_div_def vec3_x_def vec3_y_def vec3_z_def)

text \<open>
  C5. \<open>v.unit_vector()\<close> is \<open>v / v.length()\<close>, each component divided by the length, and
  \<open>v.length()\<close> is \<open>sqrt(v.length_squared())\<close>. When the length is a zero nothing is
  thrown: every component of the result is an infinity or NaN.
\<close>

theorem unit_vector_is_div_by_length:
  "vec3_unit_vector v = vec3_div v (vec3_length v) \<and>
   vec3_unit_vector v =
     Vec3 (ddiv (e0 v) (vec3_length v)) (ddiv (e1 v) (vec3_length v))
       (ddiv (e2 v) (vec3_length v)) \<and>
   vec3_length v = dsqrt (vec3_length_squared v) \<and>
   (is_zero (vec3_length v) \<longrightarrow>
      vec3_all (\<lambda>c. is_infinite c \<or> is_nan c) (vec3_unit_vector v))"
proof -
  have "vec3_all (\<lambda>c. is_infinite c \<or> is_nan c) (vec3_unit_vector v)"
    if "is_zero (vec3_length v)"
    using ddiv_by_zero [OF that] by (simp add: vec3_unit_vector_components vec3_all_def)
  then show ?thesis
    using vec3_unit_vector_components [of v]
    by (simp add: vec3_unit_vector_def vec3_length_def)
qed

theorem unit_vector_is_div_by_length_witness:
  "is_zero (vec3_length (Vec3 (Finite False 1) (Finite False 0) (Finite True 0))) \<and>
   vec3_unit_vector (Vec3 (Finite False 1) (Finite False 0) (Finite True 0)) =
     Vec3 (Infinite False) NaN NaN"
proof -
  have "(2::nat) ^ 2 \<le> 2 ^ 1074" by (intro power_increasing) simp_all
  then have small: "2 * (1 * 1) < one_units" by (simp add: one_units_def)
  have "dmul (Finite False 1) (Finite False 1) = Finite False 0"
    using round_double_underflow [OF small] by simp
  then have "vec3_length_squared (Vec3 (Finite False 1) (Finite False 0) (Finite True 0)) =
      Finite False 0"
    using one_units_positive
    by (simp add: vec3_length_squared_def vec3_x_def vec3_y_def vec3_z_def
        round_double_zero signed_magnitude_def)
  then have len: "vec3_length (Vec3 (Finite False 1) (Finite False 0) (Finite True 0)) =
      Finite False 0"
    by (simp add: vec3_length_def)
  then have "vec3_unit_vector (Vec3 (Finite False 1) (Finite False 0) (Finite True 0)) =
     Vec3 (Infinite False) NaN NaN"
    by (simp add: vec3_unit_vector_components)
  with len show ?thesis
    using unit_vector_is_div_by_length
      [of "Vec3 (Finite False 1) (Finite False 0) (Finite True 0)"]
    by simp
qed

section \<open>Additive identity and inverse, cross product, ray evaluation\<close>

lemma vec3_plus_components:
  "vec3_plus v w = Vec3 (dadd (e0 v) (e0 w)) (dadd (e1 v) (e1 w)) (dadd (e2 v) (e2 w))"
  by (simp add: vec3_plus_def vec3_x_def vec3_y_def vec3_z_def)

lemma vec3_deq_components:
  "vec3_deq v w \<longleftrightarrow> deq (e0 v) (e0 w) \<and> deq (e1 v) (e1 w) \<and> deq (e2 v) (e2 w)"
  by (simp add: vec3_deq_def vec3_x_def vec3_y_def vec3_z_def)

lemma dadd_zero_identical:
  assumes "valid_double a" and "a \<noteq> Finite True 0"
  shows "dadd a (Finite False 0) = a"
proof -
  have "is_zero (Finite False 0)" by simp
  from dadd_zero_right [OF assms(1) this] show ?thesis
  proof
    assume "is_zero a \<and> is_zero (dadd a (Finite False 0))"
    then obtain s where "a = Finite s 0" by (cases a) simp_all
    with assms(2) show ?thesis by (cases s) (simp_all add: signed_magnitude_def)
  qed
qed

lemma dadd_zero_deq:
  assumes "valid_double a" and "\<not> is_nan a" and "is_zero b"
  shows "deq (dadd a b) a"
  using dadd_zero_right [OF assms(1,3)] deq_refl [OF assms(2)] deq_zero [of "dadd a b" a]
  by auto

text \<open>
  C7, as the code has it. \<open>-v\<close> is the vector of the three negated components (the sign
  is flipped, NaN stays NaN); \<open>operator-\<close> is \<open>const\<close>, a function of the receiver. When the
  three components of \<open>v\<close> are finite, \<open>v + (-v)\<close> is the zero vector. For every \<open>v\<close> of
  binary64 values, \<open>v + vec3()\<close> is \<open>v\<close> itself unless a component is \<open>-0\<close>, which comes
  back as \<open>+0\<close>; so it compares equal to \<open>v\<close> with \<open>==\<close> unless a component is NaN.
\<close>

theorem additive_identity_inverse:
  "vec3_neg v = Vec3 (dneg (e0 v)) (dneg (e1 v)) (dneg (e2 v)) \<and>
   (vec3_all is_finite v \<longrightarrow> vec3_plus v (vec3_neg v) = vec3_default) \<and>
   (valid_vec3 v \<and> vec3_all (\<lambda>c. c \<noteq> Finite True 0) v \<longrightarrow> vec3_plus v vec3_default = v) \<and>
   (valid_vec3 v \<and> vec3_all (\<lambda>c. \<not> is_nan c) v \<longrightarrow> vec3_deq (vec3_plus v vec3_default) v)"
proof -
  have inverse: "vec3_plus v (vec3_neg v) = vec3_default" if "vec3_all is_finite v"
    using that
    by (simp add: vec3_plus_components vec3_neg_def vec3_default_def vec3_all_def
        dadd_neg_finite)
  have identical: "vec3_plus v vec3_default = v"
    if "valid_vec3 v \<and> vec3_all (\<lambda>c. c \<noteq> Finite True 0) v"
    using that
    by (simp add: vec3_plus_components vec3_default_def vec3_all_def valid_vec3_def
        dadd_zero_identical)
  have equal: "vec3_deq (vec3_plus v vec3_default) v"
    if "valid_vec3 v \<and> vec3_all (\<lambda>c. \<not> is_nan c) v"
    using that
    by (simp add: vec3_plus_components vec3_deq_components vec3_default_def vec3_all_def
        valid_vec3_def dadd_zero_deq)
  from inverse identical equal show ?thesis by (simp add: vec3_neg_def)
qed

lemma representable_small: "representable 0" "representable 3" "representable 5"
  by (simp_all add: representable_def quantum_def bit_length.simps max_finite_def)

theorem additive_identity_inverse_witness:
  "vec3_all is_finite (Vec3 (double_of_int 1) (Finite False 0) (Finite True 3)) \<and>
   valid_vec3 (Vec3 (double_of_int 1) (Finite False 0) (Finite True 3)) \<and>
   vec3_all (\<lambda>c. c \<noteq> Finite True 0) (Vec3 (double_of_int 1) (Finite False 0) (Finite True 3)) \<and>
   vec3_all (\<lambda>c. \<not> is_nan c) (Vec3 (double_of_int 1) (Finite False 0) (Finite True 3)) \<and>
   vec3_plus (Vec3 (double_of_int 1) (Finite False 0) (Finite True 3))
     (vec3_neg (Vec3 (double_of_int 1) (Finite False 0) (Finite True 3))) = vec3_default \<and>
   vec3_plus (Vec3 (double_of_int 1) (Finite False 0) (Finite True 3)) vec3_default =
     Vec3 (double_of_int 1) (Finite False 0) (Finite True 3)"
proof -
  have "vec3_all is_finite (Vec3 (double_of_int 1) (Finite False 0) (Finite True 3))"
    "valid_vec3 (Vec3 (double_of_int 1) (Finite False 0) (Finite True 3))"
    "vec3_all (\<lambda>c. c \<noteq> Finite True 0) (Vec3 (double_of_int 1) (Finite False 0) (Finite True 3))"
    "vec3_all (\<lambda>c. \<not> is_nan c) (Vec3 (double_of_int 1) (Finite False 0) (Finite True 3))"
    using one_units_positive
    by (simp_all add: vec3_all_def valid_vec3_def double_of_int_1 representable_one
        representable_small)
  then show ?thesis
    using additive_identity_inverse
      [of "Vec3 (double_of_int 1) (Finite False 0) (Finite True 3)"]
    by blast
qed

text \<open>
  C7 as the specification states it fails where a component is infinite: with \<open>v\<close> the
  vector \<open>(+\<infinity>, 0, 0)\<close> the first component of \<open>v + (-v)\<close> is \<open>\<infinity> - \<infinity>\<close>, NaN, which
  is neither the zero nor equal to it under \<open>==\<close>.
\<close>

theorem additive_inverse_counterexample:
  "vec3_plus (Vec3 (Infinite False) (Finite False 0) (Finite False 0))
     (vec3_neg (Vec3 (Infinite False) (Finite False 0) (Finite False 0))) \<noteq> vec3_default \<and>
   \<not> vec3_deq
     (vec3_plus (Vec3 (Infinite False) (Finite False 0) (Finite False 0))
       (vec3_neg (Vec3 (Infinite False) (Finite False 0) (Finite False 0))))
     vec3_default"
  by (simp add: vec3_plus_components vec3_neg_def vec3_default_def vec3_deq_components)

lemma vec3_cross_components:
  "vec3_cross v w =
     Vec3 (dsub (dmul (e1 v) (e2 w)) (dmul (e2 v) (e1 w)))
       (dsub (dmul (e2 v) (e0 w)) (dmul (e0 v) (e2 w)))
       (dsub (dmul (e0 v) (e1 w)) (dmul (e1 v) (e0 w)))"
  by (simp add: vec3_cross_def vec3_x_def vec3_y_def vec3_z_def)

lemma vec3_cross_swapped:
  "vec3_neg (vec3_cross w v) =
     Vec3 (dneg (dsub (dmul (e2 v) (e1 w)) (dmul (e1 v) (e2 w))))
       (dneg (dsub (dmul (e0 v) (e2 w)) (dmul (e2 v) (e0 w))))
       (dneg (dsub (dmul (e1 v) (e0 w)) (dmul (e0 v) (e1 w))))"
  by (simp add: vec3_cross_components vec3_neg_def dmul_commute [of "e0 w"]
      dmul_commute [of "e1 w"] dmul_commute [of "e2 w"])

lemma signed_magnitude_0: "signed_magnitude s 0 = 0"
  by (simp add: signed_magnitude_def)

lemma dsub_zero_right: "representable n \<Longrightarrow> n \<noteq> 0 \<Longrightarrow>
    dsub (Finite s n) (Finite False 0) = Finite s n"
  unfolding dsub_def dneg.simps dadd_finite
  by (simp add: signed_magnitude_0 signed_magnitude_zero round_int_signed_magnitude)

text \<open>
  C8, as the code has it. \<open>v.cross(w)\<close> is the right-handed formula
  \<open>(v.y \<cdot> w.z - v.z \<cdot> w.y, v.z \<cdot> w.x - v.x \<cdot> w.z, v.x \<cdot> w.y - v.y \<cdot> w.x)\<close>, every product
  and every difference a binary64 operation rounded on its own (no product is fused with
  the subtraction that follows it). So \<open>(1,0,0) \<times> (0,1,0)\<close> is \<open>(0,0,1)\<close>,
  \<open>(0,1,0) \<times> (0,0,1)\<close> is \<open>(1,0,0)\<close> and \<open>(0,0,1) \<times> (1,0,0)\<close> is \<open>(0,1,0)\<close>. Whenever no
  component of \<open>v.cross(w)\<close> is NaN, it compares equal, component by component under
  \<open>==\<close>, to \<open>-(w.cross(v))\<close>.
\<close>

theorem cross_anticommutes:
  "vec3_cross v w =
     Vec3 (dsub (dmul (e1 v) (e2 w)) (dmul (e2 v) (e1 w)))
       (dsub (dmul (e2 v) (e0 w)) (dmul (e0 v) (e2 w)))
       (dsub (dmul (e0 v) (e1 w)) (dmul (e1 v) (e0 w))) \<and>
   (vec3_all (\<lambda>c. \<not> is_nan c) (vec3_cross v w) \<longrightarrow>
      vec3_deq (vec3_cross v w) (vec3_neg (vec3_cross w v))) \<and>
   vec3_cross (Vec3 (double_of_int 1) (double_of_int 0) (double_of_int 0))
     (Vec3 (double_of_int 0) (double_of_int 1) (double_of_int 0)) =
     Vec3 (double_of_int 0) (double_of_int 0) (double_of_int 1) \<and>
   vec3_cross (Vec3 (double_of_int 0) (double_of_int 1) (double_of_int 0))
     (Vec3 (double_of_int 0) (double_of_int 0) (double_of_int 1)) =
     Vec3 (double_of_int 1) (double_of_int 0) (double_of_int 0) \<and>
   vec3_cross (Vec3 (double_of_int 0) (double_of_int 0) (double_of_int 1))
     (Vec3 (double_of_int 1) (double_of_int 0) (double_of_int 0)) =
     Vec3 (double_of_int 0) (double_of_int 1) (double_of_int 0)"
proof -
  have anti: "vec3_deq (vec3_cross v w) (vec3_neg (vec3_cross w v))"
    if "vec3_all (\<lambda>c. \<not> is_nan c) (vec3_cross v w)"
    using that unfolding vec3_cross_swapped
    by (simp add: vec3_cross_components vec3_deq_components vec3_all_def dsub_swap_deq)
  have one: "dmul (Finite False one_units) (Finite False one_units) = Finite False one_units"
    using dmul_one_left [of "Finite False one_units"] representable_one
    by (simp add: double_of_int_1)
  have one': "round_double False (one_units * one_units) one_units = Finite False one_units"
    using one by simp
  have zero: "dsub (Finite False 0) (Finite False 0) = Finite False 0"
    by (simp add: dsub_def signed_magnitude_def)
  have keep: "dsub (Finite False one_units) (Finite False 0) = Finite False one_units"
    using one_units_positive by (intro dsub_zero_right representable_one) simp
  have basis:
    "vec3_cross (Vec3 (Finite False one_units) (Finite False 0) (Finite False 0))
       (Vec3 (Finite False 0) (Finite False one_units) (Finite False 0)) =
     Vec3 (Finite False 0) (Finite False 0) (Finite False one_units)"
    "vec3_cross (Vec3 (Finite False 0) (Finite False one_units) (Finite False 0))
       (Vec3 (Finite False 0) (Finite False 0) (Finite False one_units)) =
     Vec3 (Finite False one_units) (Finite False 0) (Finite False 0)"
    "vec3_cross (Vec3 (Finite False 0) (Finite False 0) (Finite False one_units))
       (Vec3 (Finite False one_units) (Finite False 0) (Finite False 0)) =
     Vec3 (Finite False 0) (Finite False one_units) (Finite False 0)"
    using zero keep
    by (simp_all add: vec3_cross_components one' round_double_zero one_units_positive)
  from anti basis vec3_cross_components [of v w] show ?thesis
    by (simp add: double_of_int_1 double_of_int_0)
qed

theorem cross_anticommutes_witness:
  "vec3_all (\<lambda>c. \<not> is_nan c)
     (vec3_cross (Vec3 (double_of_int 1) (double_of_int 0) (double_of_int 0))
       (Vec3 (double_of_int 0) (double_of_int 1) (double_of_int 0))) \<and>
   vec3_deq
     (vec3_cross (Vec3 (double_of_int 1) (double_of_int 0) (double_of_int 0))
       (Vec3 (double_of_int 0) (double_of_int 1) (double_of_int 0)))
     (vec3_neg
       (vec3_cross (Vec3 (double_of_int 0) (double_of_int 1) (double_of_int 0))
         (Vec3 (double_of_int 1) (double_of_int 0) (double_of_int 0))))"
proof -
  note anti = cross_anticommutes
      [of "Vec3 (double_of_int 1) (double_of_int 0) (double_of_int 0)"
        "Vec3 (double_of_int 0) (double_of_int 1) (double_of_int 0)"]
  from anti have cross: "vec3_cross (Vec3 (double_of_int 1) (double_of_int 0) (double_of_int 0))
     (Vec3 (double_of_int 0) (double_of_int 1) (double_of_int 0)) =
     Vec3 (double_of_int 0) (double_of_int 0) (double_of_int 1)"
    by blast
  have "vec3_all (\<lambda>c. \<not> is_nan c)
     (vec3_cross (Vec3 (double_of_int 1) (double_of_int 0) (double_of_int 0))
       (Vec3 (double_of_int 0) (double_of_int 1) (double_of_int 0)))"
    unfolding cross by (simp add: vec3_all_def double_of_int_0 double_of_int_1)
  with anti show ?thesis by blast
qed

text \<open>
  C8 as the specification states it, for every pair of vectors, fails. With \<open>v\<close> the
  vector \<open>(0, +\<infinity>, 0)\<close> and \<open>w\<close> the zero vector, the first component of both sides is
  NaN (from \<open>\<infinity> \<cdot> 0\<close>), which \<open>==\<close> never finds equal, and the second is \<open>+0\<close> on one side
  and \<open>-0\<close> on the other, so the two vectors are not the same either.
\<close>

theorem cross_anticommutes_counterexample:
  "\<not> vec3_deq
     (vec3_cross (Vec3 (Finite False 0) (Infinite False) (Finite False 0)) vec3_default)
     (vec3_neg
       (vec3_cross vec3_default (Vec3 (Finite False 0) (Infinite False) (Finite False 0)))) \<and>
   vec3_cross (Vec3 (Finite False 0) (Infinite False) (Finite False 0)) vec3_default \<noteq>
     vec3_neg
       (vec3_cross vec3_default (Vec3 (Finite False 0) (Infinite False) (Finite False 0)))"
proof -
  have left: "vec3_cross (Vec3 (Finite False 0) (Infinite False) (Finite False 0)) vec3_default =
      Vec3 NaN (Finite False 0) NaN"
    by (simp add: vec3_cross_components vec3_default_def round_double_zero one_units_positive
        dsub_def signed_magnitude_def)
  have right: "vec3_neg
       (vec3_cross vec3_default (Vec3 (Finite False 0) (Infinite False) (Finite False 0))) =
      Vec3 NaN (Finite True 0) NaN"
    by (simp add: vec3_cross_components vec3_neg_def vec3_default_def round_double_zero
        one_units_positive dsub_def signed_magnitude_def)
  show ?thesis unfolding left right by (simp add: vec3_deq_components)
qed

lemma ray_at_components:
  "ray_at r t =
     Vec3 (dadd (e0 (start r)) (dmul t (e0 (direction r))))
       (dadd (e1 (start r)) (dmul t (e1 (direction r))))
       (dadd (e2 (start r)) (dmul t (e2 (direction r))))"
  by (simp add: ray_at_def vec3_plus_components scalar_times_vec3_def vec3_x_def vec3_y_def
      vec3_z_def)

lemma dadd_zero_product:
  assumes "valid_double a" and "\<not> is_nan a" and "is_zero t" and "is_finite b"
  shows "deq (dadd a (dmul t b)) a"
  using dadd_zero_deq [OF assms(1,2) dmul_zero_finite [OF assms(3,4)]] .

text \<open>
  C2, as the code has it. For every ray and every \<open>t\<close>, \<open>at(t)\<close> is
  \<open>start + (t * direction)\<close>, that is \<open>O.x + t * D.x\<close> and so on in each component, every
  product and sum rounded as binary64 rounds. \<open>at(1)\<close> is \<open>O + D\<close> for every ray of
  binary64 values, infinities and NaN in \<open>D\<close> included. \<open>at(0)\<close> compares equal to \<open>O\<close>
  under \<open>==\<close> when the components of \<open>D\<close> are finite and no component of \<open>O\<close> is NaN.
\<close>

theorem ray_at_is_origin_plus_t_direction:
  "ray_at r t = vec3_plus (start r) (scalar_times_vec3 t (direction r)) \<and>
   ray_at r t =
     Vec3 (dadd (e0 (start r)) (dmul t (e0 (direction r))))
       (dadd (e1 (start r)) (dmul t (e1 (direction r))))
       (dadd (e2 (start r)) (dmul t (e2 (direction r)))) \<and>
   (valid_vec3 (direction r) \<longrightarrow>
      ray_at r (double_of_int 1) = vec3_plus (start r) (direction r)) \<and>
   (vec3_all is_finite (direction r) \<and> valid_vec3 (start r) \<and>
    vec3_all (\<lambda>c. \<not> is_nan c) (start r) \<longrightarrow>
      vec3_deq (ray_at r (double_of_int 0)) (start r))"
proof -
  have at_one: "ray_at r (double_of_int 1) = vec3_plus (start r) (direction r)"
    if "valid_vec3 (direction r)"
    using that
    by (simp add: ray_at_components vec3_plus_components valid_vec3_def vec3_all_def
        dmul_one_left)
  have "is_zero (double_of_int 0)" by (simp add: double_of_int_0)
  then have at_zero: "vec3_deq (ray_at r (double_of_int 0)) (start r)"
    if "vec3_all is_finite (direction r) \<and> valid_vec3 (start r) \<and>
      vec3_all (\<lambda>c. \<not> is_nan c) (start r)"
    using that
    by (simp add: ray_at_components vec3_deq_components valid_vec3_def vec3_all_def
        dadd_zero_product)
  from at_one at_zero show ?thesis
    using ray_at_components [of r t] by (simp add: ray_at_def)
qed

theorem ray_at_is_origin_plus_t_direction_witness:
  "(let r = \<lparr>start = Vec3 (Finite True 3) (Finite False 0) (Infinite False),
             direction = Vec3 (Finite True 0) (Finite False 5) (double_of_int 1)\<rparr>
    in valid_vec3 (direction r) \<and> vec3_all is_finite (direction r) \<and>
       valid_vec3 (start r) \<and> vec3_all (\<lambda>c. \<not> is_nan c) (start r) \<and>
       ray_at r (double_of_int 1) = vec3_plus (start r) (direction r) \<and>
       vec3_deq (ray_at r (double_of_int 0)) (start r))"
proof -
  define r where "r = \<lparr>start = Vec3 (Finite True 3) (Finite False 0) (Infinite False),
             direction = Vec3 (Finite True 0) (Finite False 5) (double_of_int 1)\<rparr>"
  have "valid_vec3 (direction r)" "vec3_all is_finite (direction r)"
    "valid_vec3 (start r)" "vec3_all (\<lambda>c. \<not> is_nan c) (start r)"
    by (simp_all add: r_def valid_vec3_def vec3_all_def double_of_int_1 representable_one
        representable_small)
  with ray_at_is_origin_plus_t_direction [of r "double_of_int 0"]
  have "valid_vec3 (direction r) \<and> vec3_all is_finite (direction r) \<and>
       valid_vec3 (start r) \<and> vec3_all (\<lambda>c. \<not> is_nan c) (start r) \<and>
       ray_at r (double_of_int 1) = vec3_plus (start r) (direction r) \<and>
       vec3_deq (ray_at r (double_of_int 0)) (start r)"
    by blast
  then show ?thesis unfolding r_def Let_def .
qed

text \<open>
  C2 as the specification states it fails at \<open>at(0)\<close> for a direction with an infinite
  component: with origin \<open>(0, 0, 0)\<close> and direction \<open>(+\<infinity>, 0, 0)\<close> the first component of
  \<open>at(0)\<close> is \<open>0 + 0 \<cdot> \<infinity>\<close>, NaN, so \<open>at(0)\<close> is not the origin and does not compare equal
  to it.
\<close>

theorem ray_at_zero_counterexample:
  "ray_at \<lparr>start = vec3_default,
           direction = Vec3 (Infinite False) (Finite False 0) (Finite False 0)\<rparr>
     (double_of_int 0) \<noteq> vec3_default \<and>
   \<not> vec3_deq
     (ray_at \<lparr>start = vec3_default,
              direction = Vec3 (Infinite False) (Finite False 0) (Finite False 0)\<rparr>
       (double_of_int 0))
     vec3_default \<and>
   ray_origin \<lparr>start = vec3_default,
           direction = Vec3 (Infinite False) (Finite False 0) (Finite False 0)\<rparr> = vec3_default"
  by (simp add: ray_at_components vec3_default_def vec3_deq_components double_of_int_0
      ray_origin_def)

section \<open>The results the headers compute\<close>

text \<open>
  Every \<open>double\<close> the two headers compute is a binary64 value, whatever the operands:
  the results of the arithmetic are rounded, and the other operations copy components.
\<close>

lemma vec3_results_valid:
  "valid_vec3 vec3_default"
  "valid_vec3 (vec3_plus v w)"
  "valid_vec3 (vec3_minus v w)"
  "valid_vec3 (vec3_times v w)"
  "valid_vec3 (vec3_div v t)"
  "valid_vec3 (vec3_cross v w)"
  "valid_vec3 (scalar_times_vec3 t v)"
  "valid_vec3 (vec3_times_scalar v t)"
  "valid_vec3 (vec3_unit_vector v)"
  "valid_vec3 (fst (vec3_plus_assign v w))"
  "valid_vec3 (fst (vec3_times_assign v t))"
  "valid_vec3 (fst (vec3_div_assign v t))"
  "valid_vec3 (ray_at r t)"
  "valid_double (vec3_dot v w)"
  "valid_double (vec3_length_squared v)"
  "valid_double (vec3_length v)"
  by (simp_all add: valid_vec3_def vec3_all_def vec3_default_def vec3_plus_def vec3_minus_def
      vec3_times_def vec3_div_def vec3_cross_def scalar_times_vec3_def vec3_times_scalar_def
      vec3_unit_vector_def vec3_plus_assign_def vec3_times_assign_def vec3_div_assign_def
      ray_at_def vec3_dot_def vec3_length_squared_def vec3_length_def Let_def
      dadd_valid dsub_valid dmul_valid ddiv_valid dsqrt_valid representable_0)

lemma vec3_copies_valid:
  "valid_vec3 v \<Longrightarrow> valid_vec3 (vec3_neg v)"
  "valid_vec3 v \<Longrightarrow> valid_double t \<Longrightarrow> vec3_index_mut_write v i t = Inr w \<Longrightarrow> valid_vec3 w"
  "valid_vec3 v \<Longrightarrow> vec3_index v i = Inr a \<Longrightarrow> valid_double a"
  by (auto simp add: valid_vec3_def vec3_all_def vec3_neg_def dneg_valid
      vec3_index_mut_write_def vec3_index_def array_write_def array_read_def
      split: if_splits)

text \<open>
  The concrete scenarios of the specification, computed by the model:
  \<open>vec3(1,2,3) + vec3(4,5,6)\<close> is \<open>vec3(5,7,9)\<close>, \<open>vec3(3,4,0).length()\<close> is \<open>5.0\<close>, and the
  ray from \<open>(0,0,0)\<close> along \<open>(1,2,3)\<close> is at \<open>(2,4,6)\<close> for \<open>t = 2\<close>.
\<close>

lemma scenario_sum:
  "vec3_plus (Vec3 (double_of_int 1) (double_of_int 2) (double_of_int 3))
     (Vec3 (double_of_int 4) (double_of_int 5) (double_of_int 6)) =
   Vec3 (double_of_int 5) (double_of_int 7) (double_of_int 9)"
  using dadd_integers [of 1 4] dadd_integers [of 2 5] dadd_integers [of 3 6]
  by (simp add: vec3_plus_components double_of_small_ints double_of_int_1)

lemma scenario_length:
  "vec3_length (Vec3 (double_of_int 3) (double_of_int 4) (double_of_int 0)) = double_of_int 5"
proof -
  have "dmul (Finite False 0) (Finite False 0) = Finite False 0"
    using one_units_positive by (simp add: round_double_zero)
  with dmul_integers [of 3 3] dmul_integers [of 4 4] dadd_integers [of 9 16]
    dadd_integers [of 25 0]
  have "vec3_length_squared (Vec3 (double_of_int 3) (double_of_int 4) (double_of_int 0)) =
      Finite False (5 * 5 * one_units)"
    by (simp add: vec3_length_squared_def vec3_x_def vec3_y_def vec3_z_def
        double_of_small_ints double_of_int_0 del: dmul.simps dadd.simps)
  then show ?thesis
    using dsqrt_square [of 5] by (simp add: vec3_length_def double_of_small_ints)
qed

lemma scenario_ray:
  "ray_at \<lparr>start = Vec3 (double_of_int 0) (double_of_int 0) (double_of_int 0),
           direction = Vec3 (double_of_int 1) (double_of_int 2) (double_of_int 3)\<rparr>
     (double_of_int 2) =
   Vec3 (double_of_int 2) (double_of_int 4) (double_of_int 6)"
  using dmul_integers [of 2 1] dmul_integers [of 2 2] dmul_integers [of 2 3]
    dadd_integers [of 0 2] dadd_integers [of 0 4] dadd_integers [of 0 6]
  by (simp add: ray_at_components double_of_small_ints double_of_int_0 double_of_int_1
      del: dmul.simps dadd.simps)

end
